theory Spec2Isabelle
  imports Main "HOL-Library.Char_ord" "HOL-Library.List_Lexorder"
begin

section \<open>Data model (backend\_config.hpp, engine.hpp)\<close>

text \<open>
  \<^verbatim>\<open>struct BackendConfig\<close>: one record field per member, in the order of the
  constructor's positional parameters. A \<^verbatim>\<open>std::string\<close> is a \<open>string\<close> (a list of
  bytes), a \<^verbatim>\<open>std::vector<std::string>\<close> a \<open>string list\<close>.
\<close>

record BackendConfig =
  name :: string
  detection_files :: "string list"
  detection_patterns :: "string list"
  install_url :: string
  add_cmd :: "string list"
  add_dev_cmd :: "string list"
  remove_cmd :: "string list"
  sync_cmd :: "string list"
  sync_dev_cmd :: "string list"
  run_cmd :: "string list"
  list_cmd :: "string list"
  version_cmd :: "string list"
  clean_files :: "string list"

text \<open>
  \<^verbatim>\<open>struct OperationResult\<close>. The member \<^verbatim>\<open>int exit_code\<close> is only stored and
  compared with 0, never computed with, so it is an \<open>int\<close>.
\<close>

record OperationResult =
  success :: bool
  "output" :: string
  error :: string
  exit_code :: int

definition OperationResult_new :: "bool \<Rightarrow> string \<Rightarrow> string \<Rightarrow> int \<Rightarrow> OperationResult" where
  "OperationResult_new s out err code =
     \<lparr>success = s, output = out, error = err, exit_code = code\<rparr>"

section \<open>The registry (backend\_config.cpp)\<close>

text \<open>
  \<^verbatim>\<open>std::map<std::string, std::unique_ptr<BackendConfig>> backends_\<close> is an ordered
  map: iterating it visits the keys in ascending order of \<^verbatim>\<open>std::less<std::string>\<close>,
  the lexicographic order of the bytes read as unsigned values. The model is the list of
  the map's entries in iteration order; the order on \<open>string\<close> is the lexicographic one
  over the byte values of the characters.

  \<open>map_assign\<close> is \<^verbatim>\<open>m[k] = v\<close>: the entry is overwritten when the key is
  present and inserted at its place in the order otherwise.
\<close>

type_synonym BackendRegistry = "(string \<times> BackendConfig) list"

fun map_assign :: "string \<Rightarrow> 'v \<Rightarrow> (string \<times> 'v) list \<Rightarrow> (string \<times> 'v) list" where
  "map_assign k v [] = [(k, v)]"
| "map_assign k v ((k', v') # rest) =
     (if k < k' then (k, v) # (k', v') # rest
      else if k = k' then (k, v) # rest
      else (k', v') # map_assign k v rest)"

definition register_backend :: "string \<Rightarrow> BackendConfig \<Rightarrow> BackendRegistry \<Rightarrow> BackendRegistry" where
  "register_backend nm config backends = map_assign nm config backends"

definition get_backend :: "BackendRegistry \<Rightarrow> string \<Rightarrow> BackendConfig option" where
  "get_backend backends nm = map_of backends nm"

definition get_backend_names :: "BackendRegistry \<Rightarrow> string list" where
  "get_backend_names backends = map fst backends"

definition get_all_backends :: "BackendRegistry \<Rightarrow> (string \<times> BackendConfig) list" where
  "get_all_backends backends = backends"

definition pdm_config :: BackendConfig where
  "pdm_config =
     \<lparr>name = ''pdm'',
      detection_files = [''pdm.lock''],
      detection_patterns = [],
      install_url = ''curl -sSL https://pdm-project.org/install-pdm.py | python3 -'',
      add_cmd = [''pdm'', ''add''],
      add_dev_cmd = [''pdm'', ''add'', ''--dev''],
      remove_cmd = [''pdm'', ''remove''],
      sync_cmd = [''pdm'', ''sync''],
      sync_dev_cmd = [''pdm'', ''sync'', ''--dev''],
      run_cmd = [''pdm'', ''run''],
      list_cmd = [''pdm'', ''list''],
      version_cmd = [''pdm'', ''--version''],
      clean_files = [''pdm.lock'', ''.pdm-python'', ''__pypackages__'']\<rparr>"

definition uv_config :: BackendConfig where
  "uv_config =
     \<lparr>name = ''uv'',
      detection_files = [''uv.lock'', ''__pypackages__''],
      detection_patterns = [''[tool.uv]''],
      install_url = ''curl -LsSf https://astral.sh/uv/install.sh | sh'',
      add_cmd = [''uv'', ''add''],
      add_dev_cmd = [''uv'', ''add'', ''--group'', ''dev''],
      remove_cmd = [''uv'', ''remove''],
      sync_cmd = [''uv'', ''sync''],
      sync_dev_cmd = [''uv'', ''sync'', ''--group'', ''dev''],
      run_cmd = [''uv'', ''run''],
      list_cmd = [''uv'', ''pip'', ''list''],
      version_cmd = [''uv'', ''--version''],
      clean_files = [''uv.lock'', ''__pypackages__'']\<rparr>"

definition poetry_config :: BackendConfig where
  "poetry_config =
     \<lparr>name = ''poetry'',
      detection_files = [''poetry.lock''],
      detection_patterns = [''poetry''],
      install_url = ''curl -sSL https://install.python-poetry.org | python3 -'',
      add_cmd = [''poetry'', ''add''],
      add_dev_cmd = [''poetry'', ''add'', ''--group'', ''dev''],
      remove_cmd = [''poetry'', ''remove''],
      sync_cmd = [''poetry'', ''install''],
      sync_dev_cmd = [''poetry'', ''install'', ''--with'', ''dev''],
      run_cmd = [''poetry'', ''run''],
      list_cmd = [''poetry'', ''show''],
      version_cmd = [''poetry'', ''--version''],
      clean_files = [''poetry.lock'', ''.venv'']\<rparr>"

definition rye_config :: BackendConfig where
  "rye_config =
     \<lparr>name = ''rye'',
      detection_files = [''requirements.lock''],
      detection_patterns = [],
      install_url = ''curl -sSf https://rye-up.com/get | bash'',
      add_cmd = [''rye'', ''add''],
      add_dev_cmd = [''rye'', ''add'', ''--dev''],
      remove_cmd = [''rye'', ''remove''],
      sync_cmd = [''rye'', ''sync''],
      sync_dev_cmd = [''rye'', ''sync''],
      run_cmd = [''rye'', ''run''],
      list_cmd = [''rye'', ''list''],
      version_cmd = [''rye'', ''--version''],
      clean_files = [''requirements.lock'', ''.venv'']\<rparr>"

definition hatch_config :: BackendConfig where
  "hatch_config =
     \<lparr>name = ''hatch'',
      detection_files = [''hatch.lock''],
      detection_patterns = [''[tool.hatch''],
      install_url = ''pipx install hatch'',
      add_cmd = [''hatch'', ''add''],
      add_dev_cmd = [''hatch'', ''add'', ''--dev''],
      remove_cmd = [''hatch'', ''remove''],
      sync_cmd = [''hatch'', ''dep'', ''sync''],
      sync_dev_cmd = [''hatch'', ''dep'', ''sync''],
      run_cmd = [''hatch'', ''run''],
      list_cmd = [''hatch'', ''dep'', ''show''],
      version_cmd = [''hatch'', ''--version''],
      clean_files = [''.venv'']\<rparr>"

text \<open>
  \<^verbatim>\<open>initialize_default_backends\<close> registers pdm, uv, poetry, rye and hatch, in this
  order, each under a key written out in the call; the constructor
  \<^verbatim>\<open>BackendRegistry()\<close> runs it on the empty map.
\<close>

definition initialize_default_backends :: "BackendRegistry \<Rightarrow> BackendRegistry" where
  "initialize_default_backends backends =
     register_backend ''hatch'' hatch_config
       (register_backend ''rye'' rye_config
         (register_backend ''poetry'' poetry_config
           (register_backend ''uv'' uv_config
             (register_backend ''pdm'' pdm_config backends))))"

definition BackendRegistry_new :: BackendRegistry where
  "BackendRegistry_new = initialize_default_backends []"

text \<open>The eight command templates of a descriptor.\<close>

definition command_templates :: "BackendConfig \<Rightarrow> string list list" where
  "command_templates config =
     [add_cmd config, add_dev_cmd config, remove_cmd config, sync_cmd config,
      sync_dev_cmd config, run_cmd config, list_cmd config, version_cmd config]"

section \<open>The engine (engine.cpp)\<close>

text \<open>
  \<^verbatim>\<open>class Engine\<close>: its two private members \<^verbatim>\<open>registry_\<close> and
  \<^verbatim>\<open>project_path_\<close> (written here without the trailing underscore, which a
  constant's name cannot end with); the constructor builds the registry.
\<close>

record Engine =
  registry :: BackendRegistry
  project_path :: string

definition Engine_new :: "string \<Rightarrow> Engine" where
  "Engine_new path =
     \<lparr>registry = BackendRegistry_new, project_path = path\<rparr>"

definition get_install_command :: "Engine \<Rightarrow> string \<Rightarrow> string" where
  "get_install_command eng backend =
     (case get_backend (registry eng) backend of
        Some config \<Rightarrow> install_url config
      | None \<Rightarrow> [])"

definition get_clean_files :: "Engine \<Rightarrow> string \<Rightarrow> string list" where
  "get_clean_files eng backend =
     (case get_backend (registry eng) backend of
        Some config \<Rightarrow> clean_files config
      | None \<Rightarrow> [])"

subsection \<open>The operating system\<close>

text \<open>
  The engine reaches the outside world through four library calls. They are parameters
  of the model, over a type \<open>'w\<close> of states of the outside world:
  \<^item> \<open>fs_exists\<close> is the value that \<^verbatim>\<open>std::filesystem::exists\<close> returns;
  \<^item> \<open>fs_exists_error\<close> is \<open>Some what\<close> on the paths where
    \<^verbatim>\<open>std::filesystem::exists\<close> returns no value but throws an exception whose
    \<^verbatim>\<open>what()\<close> is \<open>what\<close>. Only \<^verbatim>\<open>clean_project\<close> calls it inside a handler;
    \<^verbatim>\<open>bool Engine::file_exists\<close> has none, so detection is modelled where the call
    returns;
  \<^item> \<open>fs_open_read\<close> is \<^verbatim>\<open>std::ifstream file(filename)\<close> followed by
    \<^verbatim>\<open>content << file.rdbuf()\<close>: \<open>None\<close> when the stream does not open;
  \<^item> \<open>fs_remove_all\<close> is \<^verbatim>\<open>std::filesystem::remove_all\<close>: the world after the call,
    and \<open>Some what\<close> when the call throws an exception whose \<^verbatim>\<open>what()\<close> is
    \<open>what\<close>;
  \<^item> \<open>sh_popen\<close> is \<^verbatim>\<open>popen(cmd, "r")\<close>, which gives the line to the shell, up to
    \<^verbatim>\<open>pclose\<close>: \<open>None\<close> when no pipe is returned, otherwise the successive
    buffers that \<^verbatim>\<open>fgets\<close> delivers until the end of the stream and the status
    that \<^verbatim>\<open>pclose\<close> returns; and the world the child leaves behind.
\<close>

record 'w os_api =
  fs_exists :: "'w \<Rightarrow> string \<Rightarrow> bool"
  fs_exists_error :: "'w \<Rightarrow> string \<Rightarrow> string option"
  fs_open_read :: "'w \<Rightarrow> string \<Rightarrow> string option"
  fs_remove_all :: "'w \<Rightarrow> string \<Rightarrow> string option \<times> 'w"
  sh_popen :: "'w \<Rightarrow> string \<Rightarrow> (string list \<times> int) option \<times> 'w"

text \<open>
  The state an operation runs in: the outside world, and the log of the command lines
  passed to \<^verbatim>\<open>popen\<close> so far, oldest first. The log is what "a subprocess was invoked"
  means in the theorems below.
\<close>

record 'w sys =
  world :: 'w
  spawned :: "string list"

subsection \<open>Helper methods\<close>

definition file_exists :: "'w os_api \<Rightarrow> 'w \<Rightarrow> string \<Rightarrow> bool" where
  "file_exists os w filename = fs_exists os w filename"

definition read_file :: "'w os_api \<Rightarrow> 'w \<Rightarrow> string \<Rightarrow> string" where
  "read_file os w filename =
     (case fs_open_read os w filename of
        None \<Rightarrow> []
      | Some content \<Rightarrow> content)"

definition substitute_placeholders :: "string list \<Rightarrow> string list \<Rightarrow> string list" where
  "substitute_placeholders cmd_template args = cmd_template @ args"

text \<open>
  \<^verbatim>\<open>content.find(pattern) != std::string::npos\<close>: the pattern occurs in the content
  at some position; the empty pattern occurs at position 0 of every content.
\<close>

fun starts_with :: "string \<Rightarrow> string \<Rightarrow> bool" where
  "starts_with [] s = True"
| "starts_with (p # ps) [] = False"
| "starts_with (p # ps) (c # cs) = (p = c \<and> starts_with ps cs)"

fun found_in :: "string \<Rightarrow> string \<Rightarrow> bool" where
  "found_in pattern [] = (pattern = [])"
| "found_in pattern (c # cs) = (starts_with pattern (c # cs) \<or> found_in pattern cs)"

subsection \<open>Detection\<close>

text \<open>
  The two nested iterations of \<^verbatim>\<open>detect_backend\<close>. Each outer loop walks the entries of
  the map in iteration order and returns the key of the first entry whose inner loop hits.
\<close>

fun any_detection_file :: "'w os_api \<Rightarrow> 'w \<Rightarrow> string \<Rightarrow> string list \<Rightarrow> bool" where
  "any_detection_file os w path [] = False"
| "any_detection_file os w path (file # files) =
     (if file_exists os w (path @ ''/'' @ file) then True
      else any_detection_file os w path files)"

fun first_pass :: "'w os_api \<Rightarrow> 'w \<Rightarrow> string \<Rightarrow> (string \<times> BackendConfig) list \<Rightarrow> string option" where
  "first_pass os w path [] = None"
| "first_pass os w path ((nm, config) # backends) =
     (if any_detection_file os w path (detection_files config) then Some nm
      else first_pass os w path backends)"

fun any_detection_pattern :: "string \<Rightarrow> string list \<Rightarrow> bool" where
  "any_detection_pattern content [] = False"
| "any_detection_pattern content (pattern # patterns) =
     (if found_in pattern content then True
      else any_detection_pattern content patterns)"

fun second_pass :: "string \<Rightarrow> (string \<times> BackendConfig) list \<Rightarrow> string option" where
  "second_pass content [] = None"
| "second_pass content ((nm, config) # backends) =
     (if any_detection_pattern content (detection_patterns config) then Some nm
      else second_pass content backends)"

definition detect_backend :: "'w os_api \<Rightarrow> Engine \<Rightarrow> 'w \<Rightarrow> string option" where
  "detect_backend os eng w =
     (let backends = get_all_backends (registry eng) in
      case first_pass os w (project_path eng) backends of
        Some nm \<Rightarrow> Some nm
      | None \<Rightarrow>
          (let pyproject_path = project_path eng @ ''/pyproject.toml'' in
           if file_exists os w pyproject_path then
             (let content = read_file os w pyproject_path in
              second_pass content backends)
           else None))"

definition get_available_backends :: "Engine \<Rightarrow> string list" where
  "get_available_backends eng = get_backend_names (registry eng)"

definition is_backend_available :: "Engine \<Rightarrow> string \<Rightarrow> bool" where
  "is_backend_available eng backend_name = (get_backend (registry eng) backend_name \<noteq> None)"

definition resolve_backend :: "'w os_api \<Rightarrow> Engine \<Rightarrow> 'w \<Rightarrow> string \<Rightarrow> string" where
  "resolve_backend os eng w backend =
     (if backend \<noteq> [] then backend
      else case detect_backend os eng w of
             Some detected \<Rightarrow> detected
           | None \<Rightarrow> [])"

subsection \<open>Running a command\<close>

text \<open>
  The loop of \<^verbatim>\<open>execute_command\<close> that writes the command line: \<open>i\<close> is the index of
  the next token, \<open>cmd_stream\<close> what has been written so far. A token in which
  \<^verbatim>\<open>find(' ')\<close> finds a space is written between two double quotes (the byte 0x22),
  every other token as it is.
\<close>

fun write_tokens :: "nat \<Rightarrow> string list \<Rightarrow> string \<Rightarrow> string" where
  "write_tokens i [] cmd_stream = cmd_stream"
| "write_tokens i (token # tokens) cmd_stream =
     write_tokens (Suc i) tokens
       ((if i > 0 then cmd_stream @ '' '' else cmd_stream) @
        (if CHR '' '' \<in> set token then [CHR 0x22] @ token @ [CHR 0x22] else token))"

definition cmd_str :: "string list \<Rightarrow> string" where
  "cmd_str command = write_tokens 0 command []"

text \<open>The loop that drains the pipe: every buffer read is appended to the output.\<close>

fun drain :: "string list \<Rightarrow> string \<Rightarrow> string" where
  "drain [] out = out"
| "drain (buffer # buffers) out = drain buffers (out @ buffer)"

definition execute_command :: "'w os_api \<Rightarrow> 'w sys \<Rightarrow> string list \<Rightarrow> OperationResult \<times> 'w sys" where
  "execute_command os st command =
     (if command = [] then (OperationResult_new False [] ''Empty command'' 1, st)
      else
        (let line = cmd_str command in
         case sh_popen os (world st) line of
           (None, w') \<Rightarrow>
             (OperationResult_new False [] ''Failed to execute command'' 1,
              \<lparr>world = w', spawned = spawned st @ [line]\<rparr>)
         | (Some (buffers, status), w') \<Rightarrow>
             (let out = drain buffers [];
                  ok = (status = 0)
              in (OperationResult_new ok out (if ok then [] else out) status,
                  \<lparr>world = w', spawned = spawned st @ [line]\<rparr>))))"

subsection \<open>The operations\<close>

definition add_package ::
  "'w os_api \<Rightarrow> Engine \<Rightarrow> 'w sys \<Rightarrow> string \<Rightarrow> bool \<Rightarrow> string \<Rightarrow> OperationResult \<times> 'w sys" where
  "add_package os eng st package dev backend =
     (let resolved_backend = resolve_backend os eng (world st) backend in
      if resolved_backend = [] then
        (OperationResult_new False [] ''No backend found or specified'' 1, st)
      else case get_backend (registry eng) resolved_backend of
        None \<Rightarrow>
          (OperationResult_new False [] (''Backend not found: '' @ resolved_backend) 1, st)
      | Some config \<Rightarrow>
          (let cmd_template = (if dev then add_dev_cmd config else add_cmd config);
               command = substitute_placeholders cmd_template [package]
           in execute_command os st command))"

definition remove_package ::
  "'w os_api \<Rightarrow> Engine \<Rightarrow> 'w sys \<Rightarrow> string \<Rightarrow> string \<Rightarrow> OperationResult \<times> 'w sys" where
  "remove_package os eng st package backend =
     (let resolved_backend = resolve_backend os eng (world st) backend in
      if resolved_backend = [] then
        (OperationResult_new False [] ''No backend found or specified'' 1, st)
      else case get_backend (registry eng) resolved_backend of
        None \<Rightarrow>
          (OperationResult_new False [] (''Backend not found: '' @ resolved_backend) 1, st)
      | Some config \<Rightarrow>
          (let command = substitute_placeholders (remove_cmd config) [package]
           in execute_command os st command))"

definition sync_packages ::
  "'w os_api \<Rightarrow> Engine \<Rightarrow> 'w sys \<Rightarrow> bool \<Rightarrow> string \<Rightarrow> OperationResult \<times> 'w sys" where
  "sync_packages os eng st dev backend =
     (let resolved_backend = resolve_backend os eng (world st) backend in
      if resolved_backend = [] then
        (OperationResult_new False [] ''No backend found or specified'' 1, st)
      else case get_backend (registry eng) resolved_backend of
        None \<Rightarrow>
          (OperationResult_new False [] (''Backend not found: '' @ resolved_backend) 1, st)
      | Some config \<Rightarrow>
          (let cmd_template = (if dev then sync_dev_cmd config else sync_cmd config);
               command = substitute_placeholders cmd_template []
           in execute_command os st command))"

definition run_command ::
  "'w os_api \<Rightarrow> Engine \<Rightarrow> 'w sys \<Rightarrow> string list \<Rightarrow> string \<Rightarrow> OperationResult \<times> 'w sys" where
  "run_command os eng st command backend =
     (let resolved_backend = resolve_backend os eng (world st) backend in
      if resolved_backend = [] then
        (OperationResult_new False [] ''No backend found or specified'' 1, st)
      else case get_backend (registry eng) resolved_backend of
        None \<Rightarrow>
          (OperationResult_new False [] (''Backend not found: '' @ resolved_backend) 1, st)
      | Some config \<Rightarrow>
          (let full_command = run_cmd config @ command
           in execute_command os st full_command))"

definition list_packages ::
  "'w os_api \<Rightarrow> Engine \<Rightarrow> 'w sys \<Rightarrow> string \<Rightarrow> OperationResult \<times> 'w sys" where
  "list_packages os eng st backend =
     (let resolved_backend = resolve_backend os eng (world st) backend in
      if resolved_backend = [] then
        (OperationResult_new False [] ''No backend found or specified'' 1, st)
      else case get_backend (registry eng) resolved_backend of
        None \<Rightarrow>
          (OperationResult_new False [] (''Backend not found: '' @ resolved_backend) 1, st)
      | Some config \<Rightarrow> execute_command os st (list_cmd config))"

definition get_version ::
  "'w os_api \<Rightarrow> Engine \<Rightarrow> 'w sys \<Rightarrow> string \<Rightarrow> OperationResult \<times> 'w sys" where
  "get_version os eng st backend =
     (let resolved_backend = resolve_backend os eng (world st) backend in
      if resolved_backend = [] then
        (OperationResult_new False [] ''No backend found or specified'' 1, st)
      else case get_backend (registry eng) resolved_backend of
        None \<Rightarrow>
          (OperationResult_new False [] (''Backend not found: '' @ resolved_backend) 1, st)
      | Some config \<Rightarrow> execute_command os st (version_cmd config))"

text \<open>
  The loop of \<^verbatim>\<open>clean_project\<close>, with its three variables: the output, the success flag
  and the world. Inside the \<^verbatim>\<open>try\<close> block the existence of the path is asked first
  and a path that exists is removed. Either call can throw: the handler then writes the
  failure line with the exception's message and clears the flag, and the loop goes on
  with the next file. When the existence check throws, nothing is removed.
\<close>

fun clean_loop ::
  "'w os_api \<Rightarrow> string \<Rightarrow> string list \<Rightarrow> string \<times> bool \<times> 'w \<Rightarrow> string \<times> bool \<times> 'w" where
  "clean_loop os path [] acc = acc"
| "clean_loop os path (file # files) (out, ok, w) =
     (let full_path = path @ ''/'' @ file in
      case fs_exists_error os w full_path of
        Some what \<Rightarrow>
          clean_loop os path files
            (out @ ''Failed to remove '' @ file @ '': '' @ what @ [CHR 0x0A], False, w)
      | None \<Rightarrow>
          if fs_exists os w full_path then
            (case fs_remove_all os w full_path of
               (None, w') \<Rightarrow>
                 clean_loop os path files (out @ ''Removed: '' @ file @ [CHR 0x0A], ok, w')
             | (Some what, w') \<Rightarrow>
                 clean_loop os path files
                   (out @ ''Failed to remove '' @ file @ '': '' @ what @ [CHR 0x0A], False, w'))
          else clean_loop os path files (out, ok, w))"

definition clean_project ::
  "'w os_api \<Rightarrow> Engine \<Rightarrow> 'w sys \<Rightarrow> string \<Rightarrow> OperationResult \<times> 'w sys" where
  "clean_project os eng st backend =
     (let resolved_backend = resolve_backend os eng (world st) backend in
      if resolved_backend = [] then
        (OperationResult_new False [] ''No backend found or specified'' 1, st)
      else case get_backend (registry eng) resolved_backend of
        None \<Rightarrow>
          (OperationResult_new False [] (''Backend not found: '' @ resolved_backend) 1, st)
      | Some config \<Rightarrow>
          (case clean_loop os (project_path eng) (clean_files config) ([], True, world st) of
             (out, ok, w') \<Rightarrow>
               (OperationResult_new ok out [] (if ok then 0 else 1), st\<lparr>world := w'\<rparr>)))"

text \<open>
  The seven operations as \<^verbatim>\<open>main\<close> in cli.cpp dispatches them once the options are
  parsed: the command with its arguments selects the engine's method, and the backend
  given with \<^verbatim>\<open>--backend\<close> (empty when there is none) is passed along.
\<close>

datatype operation =
    Add string bool
  | Remove string
  | Sync bool
  | Run "string list"
  | ListPackages
  | Version
  | Clean

fun perform ::
  "'w os_api \<Rightarrow> Engine \<Rightarrow> 'w sys \<Rightarrow> operation \<Rightarrow> string \<Rightarrow> OperationResult \<times> 'w sys" where
  "perform os eng st (Add package dev) backend = add_package os eng st package dev backend"
| "perform os eng st (Remove package) backend = remove_package os eng st package backend"
| "perform os eng st (Sync dev) backend = sync_packages os eng st dev backend"
| "perform os eng st (Run command) backend = run_command os eng st command backend"
| "perform os eng st ListPackages backend = list_packages os eng st backend"
| "perform os eng st Version backend = get_version os eng st backend"
| "perform os eng st Clean backend = clean_project os eng st backend"

section \<open>The specification's vocabulary\<close>

text \<open>
  The definitions of this section are not translations of the code: they say, in the
  words of the specification, what the theorems below compare the code with.
\<close>

subsection \<open>The final argument list of a delegating operation\<close>

text \<open>
  The template of the operation (the dev variant when dev is set) followed by the
  operation's own arguments. Cleanup builds no command.
\<close>

fun final_command :: "BackendConfig \<Rightarrow> operation \<Rightarrow> string list" where
  "final_command config (Add package dev) =
     (if dev then add_dev_cmd config else add_cmd config) @ [package]"
| "final_command config (Remove package) = remove_cmd config @ [package]"
| "final_command config (Sync dev) = (if dev then sync_dev_cmd config else sync_cmd config)"
| "final_command config (Run command) = run_cmd config @ command"
| "final_command config ListPackages = list_cmd config"
| "final_command config Version = version_cmd config"
| "final_command config Clean = []"

subsection \<open>A command line\<close>

text \<open>
  A token with a space in it stands between double quotes, any other token stands as it
  is, and the tokens are separated by single spaces.
\<close>

definition quoted :: "string \<Rightarrow> string" where
  "quoted token = (if CHR '' '' \<in> set token then [CHR 0x22] @ token @ [CHR 0x22] else token)"

fun spaced :: "string list \<Rightarrow> string" where
  "spaced [] = []"
| "spaced [word] = word"
| "spaced (word # words) = word @ '' '' @ spaced words"

definition command_line :: "string list \<Rightarrow> string" where
  "command_line tokens = spaced (map quoted tokens)"

subsection \<open>The log of a cleanup\<close>

text \<open>
  What happens to each cleanup path, in declared order: it is absent, it is removed, its
  removal fails with a reason, or the question whether it exists fails with a reason and
  no removal is attempted. Each path is looked at in the world that the paths before it
  have left.
\<close>

datatype cleanup_event =
    Absent string
  | Removed string
  | Failed string string
  | Unchecked string string

fun cleanup_events :: "'w os_api \<Rightarrow> string \<Rightarrow> string list \<Rightarrow> 'w \<Rightarrow> cleanup_event list" where
  "cleanup_events os path [] w = []"
| "cleanup_events os path (file # files) w =
     (case fs_exists_error os w (path @ ''/'' @ file) of
        Some reason \<Rightarrow> Unchecked file reason # cleanup_events os path files w
      | None \<Rightarrow>
          if fs_exists os w (path @ ''/'' @ file) then
            (case fs_remove_all os w (path @ ''/'' @ file) of
               (None, w') \<Rightarrow> Removed file # cleanup_events os path files w'
             | (Some reason, w') \<Rightarrow> Failed file reason # cleanup_events os path files w')
          else Absent file # cleanup_events os path files w)"

fun event_path :: "cleanup_event \<Rightarrow> string" where
  "event_path (Absent file) = file"
| "event_path (Removed file) = file"
| "event_path (Failed file reason) = file"
| "event_path (Unchecked file reason) = file"

text \<open>A deletion was attempted on the path of the event; the attempt raised an error.\<close>

fun is_attempt :: "cleanup_event \<Rightarrow> bool" where
  "is_attempt (Removed file) = True"
| "is_attempt (Failed file reason) = True"
| "is_attempt e = False"

fun deletion_failed :: "cleanup_event \<Rightarrow> bool" where
  "deletion_failed (Failed file reason) = True"
| "deletion_failed e = False"

text \<open>An error was raised on the path of the event, by the deletion or by the check.\<close>

fun is_failure :: "cleanup_event \<Rightarrow> bool" where
  "is_failure (Failed file reason) = True"
| "is_failure (Unchecked file reason) = True"
| "is_failure e = False"

fun log_line :: "cleanup_event \<Rightarrow> string" where
  "log_line (Absent file) = []"
| "log_line (Removed file) = ''Removed: '' @ file @ [CHR 0x0A]"
| "log_line (Failed file reason) = ''Failed to remove '' @ file @ '': '' @ reason @ [CHR 0x0A]"
| "log_line (Unchecked file reason) =
     ''Failed to remove '' @ file @ '': '' @ reason @ [CHR 0x0A]"

text \<open>
  The world after the events: the recursive deletion has been called, in order, on the
  paths on which a deletion was attempted, and on no other path.
\<close>

fun after_events :: "'w os_api \<Rightarrow> string \<Rightarrow> cleanup_event list \<Rightarrow> 'w \<Rightarrow> 'w" where
  "after_events os path [] w = w"
| "after_events os path (e # es) w =
     (if is_attempt e
      then after_events os path es (snd (fs_remove_all os w (path @ ''/'' @ event_path e)))
      else after_events os path es w)"

subsection \<open>Detection signals\<close>

text \<open>
  The two signals of a descriptor, in the words of the specification: one of its
  detection files exists under the project path; one of its detection patterns is a
  substring of the manifest's text.
\<close>

definition file_hit :: "'w os_api \<Rightarrow> 'w \<Rightarrow> string \<Rightarrow> BackendConfig \<Rightarrow> bool" where
  "file_hit os w path config =
     (\<exists>file \<in> set (detection_files config). fs_exists os w (path @ ''/'' @ file))"

definition pattern_hit :: "string \<Rightarrow> BackendConfig \<Rightarrow> bool" where
  "pattern_hit content config =
     (\<exists>pattern \<in> set (detection_patterns config). \<exists>u v. content = u @ pattern @ v)"

text \<open>
  A backend's signal is present in a project: the backend is registered and its
  descriptor has a file hit, or the manifest exists and the descriptor has a pattern hit
  in its text.
\<close>

definition file_signal :: "'w os_api \<Rightarrow> Engine \<Rightarrow> 'w \<Rightarrow> string \<Rightarrow> bool" where
  "file_signal os eng w nm =
     (case get_backend (registry eng) nm of
        None \<Rightarrow> False
      | Some config \<Rightarrow> file_hit os w (project_path eng) config)"

definition pattern_signal :: "'w os_api \<Rightarrow> Engine \<Rightarrow> 'w \<Rightarrow> string \<Rightarrow> bool" where
  "pattern_signal os eng w nm =
     (fs_exists os w (project_path eng @ ''/pyproject.toml'') \<and>
      (case get_backend (registry eng) nm of
         None \<Rightarrow> False
       | Some config \<Rightarrow>
           pattern_hit (read_file os w (project_path eng @ ''/pyproject.toml'')) config))"

section \<open>A small world for the examples\<close>

text \<open>
  A filesystem given by the list of its paths with their contents, the paths whose removal
  throws and the paths whose existence check throws (each with the exception's message),
  and the behaviour of the shell's children.
\<close>

record demo_world =
  disk :: "(string \<times> string) list"
  undeletable :: "(string \<times> string) list"
  unstatable :: "(string \<times> string) list"
  child :: "string \<Rightarrow> (string list \<times> int) option"

definition demo_os :: "demo_world os_api" where
  "demo_os =
     \<lparr>fs_exists = (\<lambda>w p. map_of (disk w) p \<noteq> None),
      fs_exists_error = (\<lambda>w p. map_of (unstatable w) p),
      fs_open_read = (\<lambda>w p. map_of (disk w) p),
      fs_remove_all = (\<lambda>w p.
         case map_of (undeletable w) p of
           Some what \<Rightarrow> (Some what, w)
         | None \<Rightarrow> (None, w\<lparr>disk := filter (\<lambda>e. fst e \<noteq> p) (disk w)\<rparr>)),
      sh_popen = (\<lambda>w line. (child w line, w))\<rparr>"

definition silent_failure :: "string \<Rightarrow> (string list \<times> int) option" where
  "silent_failure line = Some ([], 256)"

definition demo_project :: "(string \<times> string) list \<Rightarrow> demo_world" where
  "demo_project fs = \<lparr>disk = fs, undeletable = [], unstatable = [], child = silent_failure\<rparr>"

text \<open>The state before anything has run, in a given world.\<close>

definition demo_state :: "demo_world \<Rightarrow> demo_world sys" where
  "demo_state w = \<lparr>world = w, spawned = []\<rparr>"

text \<open>A poetry project whose lock file cannot be removed.\<close>

definition denied_project :: demo_world where
  "denied_project =
     \<lparr>disk = [(''./poetry.lock'', []), (''./.venv'', [])],
      undeletable = [(''./poetry.lock'', ''Permission denied'')],
      unstatable = [],
      child = silent_failure\<rparr>"

text \<open>A poetry project in which asking whether the lock file exists fails.\<close>

definition unstatable_project :: demo_world where
  "unstatable_project =
     \<lparr>disk = [(''./poetry.lock'', []), (''./.venv'', [])],
      undeletable = [],
      unstatable = [(''./poetry.lock'', ''Permission denied'')],
      child = silent_failure\<rparr>"

section \<open>The registry as built at startup\<close>

lemma BackendRegistry_new_entries:
  "BackendRegistry_new =
     [(''hatch'', hatch_config), (''pdm'', pdm_config), (''poetry'', poetry_config),
      (''rye'', rye_config), (''uv'', uv_config)]"
  by (simp add: BackendRegistry_new_def initialize_default_backends_def register_backend_def)

lemma get_backend_new:
  "get_backend BackendRegistry_new nm =
     (if nm = ''hatch'' then Some hatch_config
      else if nm = ''pdm'' then Some pdm_config
      else if nm = ''poetry'' then Some poetry_config
      else if nm = ''rye'' then Some rye_config
      else if nm = ''uv'' then Some uv_config
      else None)"
  by (simp add: get_backend_def BackendRegistry_new_entries)

section \<open>Facts about the helper functions\<close>

lemma starts_with_iff: "starts_with p s \<longleftrightarrow> (\<exists>v. s = p @ v)"
  by (induction p s rule: starts_with.induct) auto

lemma found_in_iff: "found_in p s \<longleftrightarrow> (\<exists>u v. s = u @ p @ v)"
proof (induction s)
  case Nil
  show ?case by auto
next
  case (Cons c cs)
  show ?case
  proof
    assume "found_in p (c # cs)"
    then consider "starts_with p (c # cs)" | "found_in p cs" by auto
    then show "\<exists>u v. c # cs = u @ p @ v"
    proof cases
      case 1
      then obtain v where "c # cs = p @ v" by (auto simp: starts_with_iff)
      then have "c # cs = [] @ p @ v" by simp
      then show ?thesis by blast
    next
      case 2
      with Cons obtain u v where "cs = u @ p @ v" by auto
      then have "c # cs = (c # u) @ p @ v" by simp
      then show ?thesis by blast
    qed
  next
    assume "\<exists>u v. c # cs = u @ p @ v"
    then obtain u v where e: "c # cs = u @ p @ v" by blast
    show "found_in p (c # cs)"
    proof (cases u)
      case Nil
      with e have "starts_with p (c # cs)" by (auto simp: starts_with_iff)
      then show ?thesis by simp
    next
      case (Cons a u')
      with e have "cs = u' @ p @ v" by simp
      with Cons.IH have "found_in p cs" by blast
      then show ?thesis by simp
    qed
  qed
qed

lemma any_detection_file_iff:
  "any_detection_file os w path files \<longleftrightarrow>
     (\<exists>file \<in> set files. fs_exists os w (path @ ''/'' @ file))"
  by (induction files) (auto simp: file_exists_def)

lemma any_detection_pattern_iff:
  "any_detection_pattern content patterns \<longleftrightarrow>
     (\<exists>pattern \<in> set patterns. \<exists>u v. content = u @ pattern @ v)"
  by (induction patterns) (auto simp: found_in_iff)

lemma first_pass_hit:
  "\<forall>e \<in> set pre. \<not> file_hit os w path (snd e) \<Longrightarrow> file_hit os w path config \<Longrightarrow>
   first_pass os w path (pre @ (nm, config) # post) = Some nm"
  by (induction pre) (auto simp: file_hit_def any_detection_file_iff)

lemma first_pass_miss:
  "\<forall>e \<in> set backends. \<not> file_hit os w path (snd e) \<Longrightarrow> first_pass os w path backends = None"
  by (induction backends) (auto simp: file_hit_def any_detection_file_iff)

lemma second_pass_hit:
  "\<forall>e \<in> set pre. \<not> pattern_hit content (snd e) \<Longrightarrow> pattern_hit content config \<Longrightarrow>
   second_pass content (pre @ (nm, config) # post) = Some nm"
  by (induction pre) (auto simp: pattern_hit_def any_detection_pattern_iff)

lemma second_pass_miss:
  "\<forall>e \<in> set backends. \<not> pattern_hit content (snd e) \<Longrightarrow> second_pass content backends = None"
  by (induction backends) (auto simp: pattern_hit_def any_detection_pattern_iff)

lemma first_pass_Some:
  "first_pass os w path backends = Some nm \<Longrightarrow>
   \<exists>pre config post. backends = pre @ (nm, config) # post \<and>
      (\<forall>e \<in> set pre. \<not> file_hit os w path (snd e)) \<and> file_hit os w path config"
proof (induction backends)
  case Nil
  then show ?case by simp
next
  case (Cons e backends)
  obtain m d where e: "e = (m, d)" by (cases e)
  show ?case
  proof (cases "file_hit os w path d")
    case True
    with Cons.prems e have "nm = m" by (simp add: file_hit_def any_detection_file_iff)
    with True e have "e # backends = [] @ (nm, d) # backends \<and>
       (\<forall>x \<in> set []. \<not> file_hit os w path (snd x)) \<and> file_hit os w path d" by simp
    then show ?thesis by blast
  next
    case False
    with Cons.prems e have "first_pass os w path backends = Some nm"
      by (simp add: file_hit_def any_detection_file_iff)
    with Cons.IH obtain pre config post where
      h: "backends = pre @ (nm, config) # post"
         "\<forall>x \<in> set pre. \<not> file_hit os w path (snd x)" "file_hit os w path config"
      by blast
    with False e have "e # backends = (e # pre) @ (nm, config) # post \<and>
       (\<forall>x \<in> set (e # pre). \<not> file_hit os w path (snd x)) \<and> file_hit os w path config" by simp
    then show ?thesis by blast
  qed
qed

lemma second_pass_Some:
  "second_pass content backends = Some nm \<Longrightarrow>
   \<exists>pre config post. backends = pre @ (nm, config) # post \<and>
      (\<forall>e \<in> set pre. \<not> pattern_hit content (snd e)) \<and> pattern_hit content config"
proof (induction backends)
  case Nil
  then show ?case by simp
next
  case (Cons e backends)
  obtain m d where e: "e = (m, d)" by (cases e)
  show ?case
  proof (cases "pattern_hit content d")
    case True
    with Cons.prems e have "nm = m" by (simp add: pattern_hit_def any_detection_pattern_iff)
    with True e have "e # backends = [] @ (nm, d) # backends \<and>
       (\<forall>x \<in> set []. \<not> pattern_hit content (snd x)) \<and> pattern_hit content d" by simp
    then show ?thesis by blast
  next
    case False
    with Cons.prems e have "second_pass content backends = Some nm"
      by (simp add: pattern_hit_def any_detection_pattern_iff)
    with Cons.IH obtain pre config post where
      h: "backends = pre @ (nm, config) # post"
         "\<forall>x \<in> set pre. \<not> pattern_hit content (snd x)" "pattern_hit content config"
      by blast
    with False e have "e # backends = (e # pre) @ (nm, config) # post \<and>
       (\<forall>x \<in> set (e # pre). \<not> pattern_hit content (snd x)) \<and> pattern_hit content config" by simp
    then show ?thesis by blast
  qed
qed

lemma map_assign_keys:
  "fst ` set (map_assign k v backends) = insert k (fst ` set backends)"
proof (induction backends)
  case Nil
  show ?case by simp
next
  case (Cons e backends)
  obtain k' v' where e: "e = (k', v')" by (cases e)
  show ?case
  proof (cases "k < k'")
    case True
    with e show ?thesis by simp
  next
    case False
    with e Cons show ?thesis by (cases "k = k'") (simp_all add: insert_commute)
  qed
qed

lemma map_assign_sorted:
  "sorted_wrt (<) (map fst backends) \<Longrightarrow> sorted_wrt (<) (map fst (map_assign k v backends))"
proof (induction backends)
  case Nil
  then show ?case by simp
next
  case (Cons e backends)
  obtain k' v' where e: "e = (k', v')" by (cases e)
  from Cons.prems e have above: "\<forall>x \<in> fst ` set backends. k' < x" and
    rest: "sorted_wrt (<) (map fst backends)" by auto
  show ?case
  proof (cases "k < k'")
    case True
    with Cons.prems e show ?thesis by auto
  next
    case False
    show ?thesis
    proof (cases "k = k'")
      case True
      with Cons.prems e show ?thesis by auto
    next
      case neq: False
      with False have "k' < k" by simp
      with above have "\<forall>x \<in> fst ` set (map_assign k v backends). k' < x"
        by (simp add: map_assign_keys)
      with Cons.IH rest e False neq show ?thesis by auto
    qed
  qed
qed

lemma map_of_map_assign:
  "sorted_wrt (<) (map fst backends) \<Longrightarrow>
   map_of (map_assign k v backends) = (map_of backends)(k \<mapsto> v)"
proof (induction backends)
  case Nil
  then show ?case by simp
next
  case (Cons e backends)
  obtain k' v' where e: "e = (k', v')" by (cases e)
  with Cons show ?case by (auto simp: fun_eq_iff)
qed

lemma file_hit_code:
  "file_hit os w path config = any_detection_file os w path (detection_files config)"
  by (simp add: file_hit_def any_detection_file_iff)

lemma pattern_hit_code:
  "pattern_hit content config = any_detection_pattern content (detection_patterns config)"
  by (simp add: pattern_hit_def any_detection_pattern_iff)

lemmas config_defs = hatch_config_def pdm_config_def poetry_config_def rye_config_def uv_config_def

lemmas demo_eval = detect_backend_def get_all_backends_def Engine_new_def
  BackendRegistry_new_entries config_defs file_exists_def read_file_def demo_os_def
  demo_project_def

lemma first_pass_cong:
  "\<forall>p. fs_exists os w p = fs_exists os w' p \<Longrightarrow>
   first_pass os w path backends = first_pass os w' path backends"
  by (induction backends) (auto simp: any_detection_file_iff)

lemma first_pass_None:
  "first_pass os w path backends = None \<Longrightarrow>
   \<forall>e \<in> set backends. \<not> file_hit os w path (snd e)"
proof (induction backends)
  case Nil
  show ?case by simp
next
  case (Cons e backends)
  obtain m d where e: "e = (m, d)" by (cases e)
  from Cons.prems e have "\<not> any_detection_file os w path (detection_files d)"
    and "first_pass os w path backends = None"
    by (simp_all split: if_splits)
  with Cons.IH e show ?case by (simp add: file_hit_code)
qed

lemma detect_backend_cong:
  assumes "\<forall>p. fs_exists os w p = fs_exists os w' p"
    and "fs_open_read os w (project_path eng @ ''/pyproject.toml'') =
         fs_open_read os w' (project_path eng @ ''/pyproject.toml'')"
  shows "detect_backend os eng w = detect_backend os eng w'"
proof -
  have "first_pass os w (project_path eng) (get_all_backends (registry eng)) =
      first_pass os w' (project_path eng) (get_all_backends (registry eng))"
    using assms(1) by (rule first_pass_cong)
  with assms show ?thesis
    by (simp add: detect_backend_def file_exists_def read_file_def Let_def split: option.splits)
qed

lemma sorted_keys_map_of:
  fixes nm :: string
  shows "sorted_wrt (<) (map fst (pre @ (nm, config) # post)) \<Longrightarrow>
   map_of (pre @ (nm, config) # post) nm = Some config"
proof -
  assume "sorted_wrt (<) (map fst (pre @ (nm, config) # post))"
  then have "\<forall>k \<in> fst ` set pre. k < nm" by (simp add: sorted_wrt_append)
  then have "nm \<notin> fst ` set pre" by blast
  then have "map_of pre nm = None" by (simp add: map_of_eq_None_iff)
  then show ?thesis by (simp add: map_add_def)
qed

lemma sorted_keys_least:
  fixes nm :: string
  assumes s: "sorted_wrt (<) (map fst (pre @ (nm, config) # post))"
    and pre: "\<forall>e \<in> set pre. \<not> P (snd e)"
    and m: "map_of (pre @ (nm, config) # post) m = Some d" and d: "P d"
  shows "nm \<le> m"
proof -
  from m have "(m, d) \<in> set (pre @ (nm, config) # post)" by (rule map_of_SomeD)
  with pre d have "(m, d) = (nm, config) \<or> (m, d) \<in> set post" by auto
  then show ?thesis
  proof
    assume "(m, d) = (nm, config)"
    then show ?thesis by simp
  next
    assume "(m, d) \<in> set post"
    then have "m \<in> fst ` set post" by force
    with s have "nm < m" by (auto simp: sorted_wrt_append)
    then show ?thesis by simp
  qed
qed

lemma detect_backend_least:
  assumes s: "sorted_wrt (<) (get_backend_names (registry eng))"
    and det: "detect_backend os eng w = Some nm"
  shows "(file_signal os eng w nm \<and> (\<forall>m. file_signal os eng w m \<longrightarrow> nm \<le> m)) \<or>
         ((\<forall>m. \<not> file_signal os eng w m) \<and> pattern_signal os eng w nm \<and>
          (\<forall>m. pattern_signal os eng w m \<longrightarrow> nm \<le> m))"
proof (cases "first_pass os w (project_path eng) (registry eng)")
  case (Some n)
  with det have n: "n = nm" by (simp add: detect_backend_def get_all_backends_def)
  from Some n have "first_pass os w (project_path eng) (registry eng) = Some nm" by simp
  from first_pass_Some [OF this] obtain pre config post where
    reg: "registry eng = pre @ (nm, config) # post" and
    pre: "\<forall>e \<in> set pre. \<not> file_hit os w (project_path eng) (snd e)" and
    hit: "file_hit os w (project_path eng) config"
    by blast
  from s reg have s': "sorted_wrt (<) (map fst (pre @ (nm, config) # post))"
    by (simp add: get_backend_names_def)
  from s' have "map_of (pre @ (nm, config) # post) nm = Some config" by (rule sorted_keys_map_of)
  with reg hit have "file_signal os eng w nm" by (simp add: file_signal_def get_backend_def)
  moreover have "\<forall>m. file_signal os eng w m \<longrightarrow> nm \<le> m"
  proof (intro allI impI)
    fix m assume "file_signal os eng w m"
    then obtain d where "map_of (pre @ (nm, config) # post) m = Some d"
      "file_hit os w (project_path eng) d"
      by (auto simp: file_signal_def get_backend_def reg split: option.splits)
    with s' pre show "nm \<le> m" by (rule sorted_keys_least)
  qed
  ultimately show ?thesis by blast
next
  case None
  let ?manifest = "project_path eng @ ''/pyproject.toml''"
  let ?content = "read_file os w ?manifest"
  from None have miss: "\<forall>e \<in> set (registry eng). \<not> file_hit os w (project_path eng) (snd e)"
    by (simp add: first_pass_None)
  have nofile: "\<forall>m. \<not> file_signal os eng w m"
  proof (intro allI notI)
    fix m assume "file_signal os eng w m"
    then obtain d where "map_of (registry eng) m = Some d" "file_hit os w (project_path eng) d"
      by (auto simp: file_signal_def get_backend_def split: option.splits)
    then have "(m, d) \<in> set (registry eng)" "file_hit os w (project_path eng) d"
      by (simp_all add: map_of_SomeD)
    with miss show False by force
  qed
  from det None have ex: "fs_exists os w ?manifest" and
    sp: "second_pass ?content (registry eng) = Some nm"
    by (simp_all add: detect_backend_def get_all_backends_def file_exists_def Let_def
        split: if_splits)
  from second_pass_Some [OF sp] obtain pre config post where
    reg: "registry eng = pre @ (nm, config) # post" and
    pre: "\<forall>e \<in> set pre. \<not> pattern_hit ?content (snd e)" and
    hit: "pattern_hit ?content config"
    by blast
  from s reg have s': "sorted_wrt (<) (map fst (pre @ (nm, config) # post))"
    by (simp add: get_backend_names_def)
  from s' have "map_of (pre @ (nm, config) # post) nm = Some config" by (rule sorted_keys_map_of)
  with reg hit ex have "pattern_signal os eng w nm"
    by (simp add: pattern_signal_def get_backend_def)
  moreover have "\<forall>m. pattern_signal os eng w m \<longrightarrow> nm \<le> m"
  proof (intro allI impI)
    fix m assume "pattern_signal os eng w m"
    then obtain d where "map_of (pre @ (nm, config) # post) m = Some d"
      "pattern_hit ?content d"
      by (auto simp: pattern_signal_def get_backend_def reg split: option.splits)
    with s' pre show "nm \<le> m" by (rule sorted_keys_least)
  qed
  ultimately show ?thesis using nofile by blast
qed

lemma Engine_new_names:
  "get_backend_names (registry (Engine_new path)) = [''hatch'', ''pdm'', ''poetry'', ''rye'', ''uv'']"
  by (simp add: get_backend_names_def Engine_new_def BackendRegistry_new_entries)

lemma Engine_new_sorted: "sorted_wrt (<) (get_backend_names (registry (Engine_new path)))"
  by (simp add: Engine_new_names)

lemma second_pass_None:
  "second_pass content backends = None \<Longrightarrow>
   \<forall>e \<in> set backends. \<not> pattern_hit content (snd e)"
proof (induction backends)
  case Nil
  show ?case by simp
next
  case (Cons e backends)
  obtain m d where e: "e = (m, d)" by (cases e)
  from Cons.prems e have "\<not> any_detection_pattern content (detection_patterns d)"
    and "second_pass content backends = None"
    by (simp_all split: if_splits)
  with Cons.IH e show ?case by (simp add: pattern_hit_code)
qed

lemma sorted_keys_entry:
  fixes k :: string
  assumes "sorted_wrt (<) (map fst backends)" and "(k, d) \<in> set backends"
  shows "map_of backends k = Some d"
proof -
  from assms(1) have "distinct (map fst backends)" by (simp add: strict_sorted_iff)
  from this assms(2) show ?thesis by (rule map_of_is_SomeI)
qed

lemma no_file_signal_miss:
  assumes s: "sorted_wrt (<) (get_backend_names (registry eng))"
    and none: "\<forall>m. \<not> file_signal os eng w m"
  shows "\<forall>e \<in> set (registry eng). \<not> file_hit os w (project_path eng) (snd e)"
proof
  fix e assume e: "e \<in> set (registry eng)"
  obtain k d where kd: "e = (k, d)" by (cases e)
  from s e kd have "map_of (registry eng) k = Some d"
    by (simp add: get_backend_names_def sorted_keys_entry)
  with none have "\<not> file_hit os w (project_path eng) d"
    by (auto simp: file_signal_def get_backend_def split: option.splits)
  with kd show "\<not> file_hit os w (project_path eng) (snd e)" by simp
qed

lemma no_pattern_signal_miss:
  assumes s: "sorted_wrt (<) (get_backend_names (registry eng))"
    and ex: "fs_exists os w (project_path eng @ ''/pyproject.toml'')"
    and none: "\<forall>m. \<not> pattern_signal os eng w m"
  shows "\<forall>e \<in> set (registry eng).
    \<not> pattern_hit (read_file os w (project_path eng @ ''/pyproject.toml'')) (snd e)"
proof
  fix e assume e: "e \<in> set (registry eng)"
  obtain k d where kd: "e = (k, d)" by (cases e)
  from s e kd have "map_of (registry eng) k = Some d"
    by (simp add: get_backend_names_def sorted_keys_entry)
  with none ex have
    "\<not> pattern_hit (read_file os w (project_path eng @ ''/pyproject.toml'')) d"
    by (auto simp: pattern_signal_def get_backend_def split: option.splits)
  with kd show "\<not> pattern_hit (read_file os w (project_path eng @ ''/pyproject.toml'')) (snd e)"
    by simp
qed

lemma detect_backend_file_pass:
  assumes s: "sorted_wrt (<) (get_backend_names (registry eng))"
    and sig: "file_signal os eng w m"
  shows "\<exists>nm. detect_backend os eng w = Some nm \<and> file_signal os eng w nm \<and>
    (\<forall>k. file_signal os eng w k \<longrightarrow> nm \<le> k)"
proof -
  from sig obtain d where "map_of (registry eng) m = Some d" "file_hit os w (project_path eng) d"
    by (auto simp: file_signal_def get_backend_def split: option.splits)
  then have md: "(m, d) \<in> set (registry eng)" "file_hit os w (project_path eng) (snd (m, d))"
    by (simp_all add: map_of_SomeD)
  have "first_pass os w (project_path eng) (registry eng) \<noteq> None"
  proof
    assume "first_pass os w (project_path eng) (registry eng) = None"
    from first_pass_None [OF this] md show False by blast
  qed
  then obtain nm where "first_pass os w (project_path eng) (registry eng) = Some nm" by blast
  then have det: "detect_backend os eng w = Some nm"
    by (simp add: detect_backend_def get_all_backends_def)
  from detect_backend_least [OF s det] sig
  have "file_signal os eng w nm \<and> (\<forall>k. file_signal os eng w k \<longrightarrow> nm \<le> k)" by blast
  with det show ?thesis by blast
qed

lemma detect_backend_pattern_pass:
  assumes s: "sorted_wrt (<) (get_backend_names (registry eng))"
    and nofile: "\<forall>k. \<not> file_signal os eng w k"
    and sig: "pattern_signal os eng w m"
  shows "\<exists>nm. detect_backend os eng w = Some nm \<and> pattern_signal os eng w nm \<and>
    (\<forall>k. pattern_signal os eng w k \<longrightarrow> nm \<le> k)"
proof -
  let ?content = "read_file os w (project_path eng @ ''/pyproject.toml'')"
  from no_file_signal_miss [OF s nofile]
  have fp: "first_pass os w (project_path eng) (registry eng) = None"
    by (rule first_pass_miss)
  from sig obtain d where ex: "fs_exists os w (project_path eng @ ''/pyproject.toml'')"
    and "map_of (registry eng) m = Some d" "pattern_hit ?content d"
    by (auto simp: pattern_signal_def get_backend_def split: option.splits)
  then have md: "(m, d) \<in> set (registry eng)" "pattern_hit ?content (snd (m, d))"
    by (simp_all add: map_of_SomeD)
  have "second_pass ?content (registry eng) \<noteq> None"
  proof
    assume "second_pass ?content (registry eng) = None"
    from second_pass_None [OF this] md show False by blast
  qed
  then obtain nm where "second_pass ?content (registry eng) = Some nm" by blast
  with fp ex have det: "detect_backend os eng w = Some nm"
    by (simp add: detect_backend_def get_all_backends_def file_exists_def Let_def)
  from detect_backend_least [OF s det] nofile
  have "pattern_signal os eng w nm \<and> (\<forall>k. pattern_signal os eng w k \<longrightarrow> nm \<le> k)" by blast
  with det show ?thesis by blast
qed

lemma detect_backend_no_signal:
  assumes s: "sorted_wrt (<) (get_backend_names (registry eng))"
    and nofile: "\<forall>k. \<not> file_signal os eng w k"
    and nopat: "\<forall>k. \<not> pattern_signal os eng w k"
  shows "detect_backend os eng w = None"
proof -
  from no_file_signal_miss [OF s nofile]
  have fp: "first_pass os w (project_path eng) (registry eng) = None"
    by (rule first_pass_miss)
  show ?thesis
  proof (cases "fs_exists os w (project_path eng @ ''/pyproject.toml'')")
    case False
    with fp show ?thesis
      by (simp add: detect_backend_def get_all_backends_def file_exists_def Let_def)
  next
    case True
    from no_pattern_signal_miss [OF s True nopat]
    have "second_pass (read_file os w (project_path eng @ ''/pyproject.toml'')) (registry eng) = None"
      by (rule second_pass_miss)
    with fp True show ?thesis
      by (simp add: detect_backend_def get_all_backends_def file_exists_def Let_def)
  qed
qed

section \<open>Facts about the operations\<close>

lemmas operation_defs = add_package_def remove_package_def sync_packages_def run_command_def
  list_packages_def get_version_def clean_project_def

lemma perform_no_backend:
  "resolve_backend os eng (world st) backend = [] \<Longrightarrow>
   perform os eng st op backend =
     (OperationResult_new False [] ''No backend found or specified'' 1, st)"
  by (cases op) (simp_all add: operation_defs)

lemma perform_unknown_backend:
  "resolve_backend os eng (world st) backend \<noteq> [] \<Longrightarrow>
   get_backend (registry eng) (resolve_backend os eng (world st) backend) = None \<Longrightarrow>
   perform os eng st op backend =
     (OperationResult_new False []
        (''Backend not found: '' @ resolve_backend os eng (world st) backend) 1, st)"
  by (cases op) (simp_all add: operation_defs)

lemma perform_delegates:
  "resolve_backend os eng (world st) backend \<noteq> [] \<Longrightarrow>
   get_backend (registry eng) (resolve_backend os eng (world st) backend) = Some config \<Longrightarrow>
   op \<noteq> Clean \<Longrightarrow>
   perform os eng st op backend = execute_command os st (final_command config op)"
  by (cases op) (simp_all add: operation_defs substitute_placeholders_def)

lemma perform_clean:
  "resolve_backend os eng (world st) backend \<noteq> [] \<Longrightarrow>
   get_backend (registry eng) (resolve_backend os eng (world st) backend) = Some config \<Longrightarrow>
   perform os eng st Clean backend =
     (case clean_loop os (project_path eng) (clean_files config) ([], True, world st) of
        (out, ok, w') \<Rightarrow>
          (OperationResult_new ok out [] (if ok then 0 else 1), st\<lparr>world := w'\<rparr>))"
  by (simp add: operation_defs)

lemma write_tokens_step:
  "write_tokens i (token # tokens) acc =
     write_tokens (Suc i) tokens ((if i > 0 then acc @ '' '' else acc) @ quoted token)"
  by (simp add: quoted_def)

lemma write_tokens_spaced:
  "write_tokens i tokens acc =
     (if tokens = [] then acc
      else (if i > 0 then acc @ '' '' else acc) @ spaced (map quoted tokens))"
proof (induction tokens arbitrary: i acc)
  case Nil
  show ?case by simp
next
  case (Cons token tokens)
  let ?sep = "if i > 0 then acc @ '' '' else acc"
  have "write_tokens i (token # tokens) acc = write_tokens (Suc i) tokens (?sep @ quoted token)"
    by (rule write_tokens_step)
  also have "\<dots> = (if tokens = [] then ?sep @ quoted token
      else ((?sep @ quoted token) @ '' '') @ spaced (map quoted tokens))"
    using Cons.IH [of "Suc i" "?sep @ quoted token"] by simp
  also have "\<dots> = ?sep @ spaced (map quoted (token # tokens))"
    by (cases tokens) simp_all
  finally show ?case by simp
qed

lemma cmd_str_command_line: "cmd_str command = command_line command"
  by (simp add: cmd_str_def command_line_def write_tokens_spaced)

lemma execute_command_spawned:
  "command \<noteq> [] \<Longrightarrow>
   spawned (snd (execute_command os st command)) = spawned st @ [command_line command]"
  by (simp add: execute_command_def cmd_str_command_line Let_def split: prod.splits option.splits)

lemma execute_command_success:
  "success (fst (execute_command os st command)) \<longleftrightarrow>
   exit_code (fst (execute_command os st command)) = 0"
  by (simp add: execute_command_def OperationResult_new_def Let_def
      split: prod.splits option.splits)

lemma execute_command_failure:
  "\<not> success (fst (execute_command os st command)) \<Longrightarrow>
   error (fst (execute_command os st command)) \<noteq> [] \<or>
   (error (fst (execute_command os st command)) = output (fst (execute_command os st command)) \<and>
    spawned (snd (execute_command os st command)) \<noteq> spawned st)"
  by (simp add: execute_command_def OperationResult_new_def Let_def
      split: prod.splits option.splits if_splits)

lemma clean_loop_events:
  "clean_loop os path files (out, ok, w) = (out', ok', w') \<Longrightarrow>
   out' = out @ concat (map log_line (cleanup_events os path files w)) \<and>
   ok' = (ok \<and> (\<forall>e \<in> set (cleanup_events os path files w). \<not> is_failure e)) \<and>
   w' = after_events os path (cleanup_events os path files w) w"
proof (induction files arbitrary: out ok w)
  case Nil
  then show ?case by simp
next
  case (Cons f rest)
  let ?full = "path @ ''/'' @ f"
  show ?case
  proof (cases "fs_exists_error os w ?full")
    case (Some what)
    with Cons.prems have
      "clean_loop os path rest
         (out @ ''Failed to remove '' @ f @ '': '' @ what @ [CHR 0x0A], False, w) =
       (out', ok', w')"
      by simp
    from Cons.IH [OF this] Some show ?thesis by simp
  next
    case None
    show ?thesis
    proof (cases "fs_exists os w ?full")
      case False
      with Cons.prems None have "clean_loop os path rest (out, ok, w) = (out', ok', w')" by simp
      from Cons.IH [OF this] None False show ?thesis by simp
    next
      case True
      obtain r w1 where rm: "fs_remove_all os w ?full = (r, w1)"
        by (cases "fs_remove_all os w ?full")
      show ?thesis
      proof (cases r)
        case no_error: None
        with Cons.prems None True rm have
          "clean_loop os path rest (out @ ''Removed: '' @ f @ [CHR 0x0A], ok, w1) = (out', ok', w')"
          by simp
        from Cons.IH [OF this] None True rm no_error show ?thesis by simp
      next
        case (Some reason)
        with Cons.prems None True rm have
          "clean_loop os path rest
             (out @ ''Failed to remove '' @ f @ '': '' @ reason @ [CHR 0x0A], False, w1) =
           (out', ok', w')"
          by simp
        from Cons.IH [OF this] None True rm Some show ?thesis by simp
      qed
    qed
  qed
qed

lemma cleanup_events_paths: "map event_path (cleanup_events os path files w) = files"
  by (induction files arbitrary: w) (auto split: prod.splits option.splits)

lemma failure_log_line: "is_failure e \<Longrightarrow> log_line e \<noteq> []"
  by (cases e) simp_all

lemma drain_concat: "drain buffers out = out @ concat buffers"
  by (induction buffers arbitrary: out) simp_all

lemma execute_command_result:
  "command \<noteq> [] \<Longrightarrow>
   fst (execute_command os st command) =
     (case fst (sh_popen os (world st) (command_line command)) of
        None \<Rightarrow> \<lparr>success = False, output = [], error = ''Failed to execute command'', exit_code = 1\<rparr>
      | Some (buffers, status) \<Rightarrow>
          \<lparr>success = (status = 0), output = concat buffers,
           error = (if status = 0 then [] else concat buffers), exit_code = status\<rparr>)"
  by (simp add: execute_command_def cmd_str_command_line OperationResult_new_def drain_concat
      Let_def split: prod.splits option.splits)

lemma default_templates_nonempty:
  "get_backend (registry (Engine_new path)) nm = Some config \<Longrightarrow> op \<noteq> Clean \<Longrightarrow>
   final_command config op \<noteq> []"
  by (cases op) (auto simp: Engine_new_def get_backend_new config_defs split: if_splits)

section \<open>The catalog\<close>

text \<open>
  C10. In the catalog as built at startup every descriptor is registered under its own
  name, looking that name up returns the descriptor, no two entries share a key or a
  name, and each of the eight command templates of every descriptor is non-empty.
\<close>

theorem catalog_invariant:
  "(\<forall>(k, D) \<in> set BackendRegistry_new.
      name D = k \<and> get_backend BackendRegistry_new (name D) = Some D \<and>
      [] \<notin> set (command_templates D)) \<and>
   distinct (get_backend_names BackendRegistry_new) \<and>
   distinct (map (\<lambda>(k, D). name D) BackendRegistry_new)"
  by (simp add: BackendRegistry_new_entries get_backend_def get_backend_names_def
      command_templates_def hatch_config_def pdm_config_def poetry_config_def
      rye_config_def uv_config_def)

text \<open>The invariant at the entry for uv.\<close>

theorem catalog_invariant_witness:
  "(''uv'', uv_config) \<in> set BackendRegistry_new \<and> name uv_config = ''uv'' \<and>
   get_backend BackendRegistry_new (name uv_config) = Some uv_config \<and>
   [] \<notin> set (command_templates uv_config)"
proof -
  have m: "(''uv'', uv_config) \<in> set BackendRegistry_new"
    by (simp add: BackendRegistry_new_entries)
  from catalog_invariant m show ?thesis
    by blast
qed

text \<open>
  C9. The two information lookups read the registry and nothing else (neither takes the
  operating system or a world): for a registered backend they return its descriptor's
  cleanup paths and install hint, for any other name the empty sequence and the empty
  string.
\<close>

theorem info_lookup:
  "(get_backend (registry eng) backend = Some config \<longrightarrow>
      get_clean_files eng backend = clean_files config \<and>
      get_install_command eng backend = install_url config) \<and>
   (get_backend (registry eng) backend = None \<longrightarrow>
      get_clean_files eng backend = [] \<and> get_install_command eng backend = [])"
  by (simp add: get_clean_files_def get_install_command_def)

text \<open>The lookups for poetry, which is registered, and for pip, which is not.\<close>

theorem info_lookup_witness:
  "get_backend (registry (Engine_new ''.'')) ''poetry'' = Some poetry_config \<and>
   get_clean_files (Engine_new ''.'') ''poetry'' = [''poetry.lock'', ''.venv''] \<and>
   get_install_command (Engine_new ''.'') ''poetry'' =
     ''curl -sSL https://install.python-poetry.org | python3 -'' \<and>
   get_backend (registry (Engine_new ''.'')) ''pip'' = None \<and>
   get_clean_files (Engine_new ''.'') ''pip'' = [] \<and>
   get_install_command (Engine_new ''.'') ''pip'' = []"
proof -
  have a: "get_backend (registry (Engine_new ''.'')) ''poetry'' = Some poetry_config"
    by (simp add: Engine_new_def get_backend_new)
  have b: "get_backend (registry (Engine_new ''.'')) ''pip'' = None"
    by (simp add: Engine_new_def get_backend_new)
  from a info_lookup [of "Engine_new ''.''" "''poetry''" poetry_config]
  have "get_clean_files (Engine_new ''.'') ''poetry'' = clean_files poetry_config \<and>
      get_install_command (Engine_new ''.'') ''poetry'' = install_url poetry_config" by blast
  moreover from b info_lookup [of "Engine_new ''.''" "''pip''"]
  have "get_clean_files (Engine_new ''.'') ''pip'' = [] \<and>
      get_install_command (Engine_new ''.'') ''pip'' = []" by blast
  ultimately show ?thesis using a b by (simp add: poetry_config_def)
qed

section \<open>Resolution and detection\<close>

text \<open>
  C7. A non-empty explicit backend is returned as it is: the catalog is not consulted and
  detection does not run, whatever the project directory holds.
\<close>

theorem resolve_explicit:
  "backend \<noteq> [] \<Longrightarrow> resolve_backend os eng w backend = backend"
  by (simp add: resolve_backend_def)

text \<open>
  In a project that detection reads as uv, the explicit hint poetry is returned, and so
  is the hint pip, which names no registered backend.
\<close>

theorem resolve_explicit_witness:
  "detect_backend demo_os (Engine_new ''.'') (demo_project [(''./uv.lock'', [])]) = Some ''uv'' \<and>
   resolve_backend demo_os (Engine_new ''.'') (demo_project [(''./uv.lock'', [])]) ''poetry'' =
     ''poetry'' \<and>
   get_backend (registry (Engine_new ''.'')) ''pip'' = None \<and>
   resolve_backend demo_os (Engine_new ''.'') (demo_project [(''./uv.lock'', [])]) ''pip'' = ''pip''"
proof -
  have ne: "''poetry'' \<noteq> []" and ne': "''pip'' \<noteq> []" by simp_all
  have "detect_backend demo_os (Engine_new ''.'') (demo_project [(''./uv.lock'', [])]) = Some ''uv''"
    by (simp add: demo_eval)
  moreover have "get_backend (registry (Engine_new ''.'')) ''pip'' = None"
    by (simp add: Engine_new_def get_backend_new)
  ultimately show ?thesis
    using resolve_explicit [OF ne, of demo_os "Engine_new ''.''" "demo_project [(''./uv.lock'', [])]"]
      resolve_explicit [OF ne', of demo_os "Engine_new ''.''" "demo_project [(''./uv.lock'', [])]"]
    by simp
qed

text \<open>
  C3. Detection runs two passes over the descriptors in the registry's order. The first
  descriptor with an existing detection file wins; when no descriptor has one and
  pyproject.toml exists, the first descriptor with a pattern occurring in the text read
  from it wins; otherwise the result is absent. For the built-in catalog, a project whose
  only file signal is uv.lock detects as uv, whatever its manifest contains.
\<close>

theorem detect_two_passes:
  "(registry eng = pre @ (nm, config) # post \<and>
    (\<forall>e \<in> set pre. \<not> file_hit os w (project_path eng) (snd e)) \<and>
    file_hit os w (project_path eng) config
    \<longrightarrow> detect_backend os eng w = Some nm) \<and>
   ((\<forall>e \<in> set (registry eng). \<not> file_hit os w (project_path eng) (snd e)) \<and>
    fs_exists os w (project_path eng @ ''/pyproject.toml'') \<and>
    registry eng = pre @ (nm, config) # post \<and>
    (\<forall>e \<in> set pre. \<not> pattern_hit (read_file os w (project_path eng @ ''/pyproject.toml'')) (snd e)) \<and>
    pattern_hit (read_file os w (project_path eng @ ''/pyproject.toml'')) config
    \<longrightarrow> detect_backend os eng w = Some nm) \<and>
   ((\<forall>e \<in> set (registry eng). \<not> file_hit os w (project_path eng) (snd e)) \<and>
    (fs_exists os w (project_path eng @ ''/pyproject.toml'') \<longrightarrow>
      (\<forall>e \<in> set (registry eng).
         \<not> pattern_hit (read_file os w (project_path eng @ ''/pyproject.toml'')) (snd e)))
    \<longrightarrow> detect_backend os eng w = None) \<and>
   (fs_exists os w (path @ ''/uv.lock'') \<and>
    (\<forall>e \<in> set (registry (Engine_new path)). fst e \<noteq> ''uv'' \<longrightarrow> \<not> file_hit os w path (snd e))
    \<longrightarrow> detect_backend os (Engine_new path) w = Some ''uv'')"
proof (intro conjI impI)
  assume "registry eng = pre @ (nm, config) # post \<and>
    (\<forall>e \<in> set pre. \<not> file_hit os w (project_path eng) (snd e)) \<and>
    file_hit os w (project_path eng) config"
  then show "detect_backend os eng w = Some nm"
    by (simp add: detect_backend_def get_all_backends_def first_pass_hit)
next
  assume h: "(\<forall>e \<in> set (registry eng). \<not> file_hit os w (project_path eng) (snd e)) \<and>
    fs_exists os w (project_path eng @ ''/pyproject.toml'') \<and>
    registry eng = pre @ (nm, config) # post \<and>
    (\<forall>e \<in> set pre. \<not> pattern_hit (read_file os w (project_path eng @ ''/pyproject.toml'')) (snd e)) \<and>
    pattern_hit (read_file os w (project_path eng @ ''/pyproject.toml'')) config"
  then have "first_pass os w (project_path eng) (registry eng) = None"
    by (simp add: first_pass_miss)
  moreover from h have
    "second_pass (read_file os w (project_path eng @ ''/pyproject.toml'')) (registry eng) = Some nm"
    by (simp add: second_pass_hit)
  ultimately show "detect_backend os eng w = Some nm"
    using h by (simp add: detect_backend_def get_all_backends_def file_exists_def)
next
  assume h: "(\<forall>e \<in> set (registry eng). \<not> file_hit os w (project_path eng) (snd e)) \<and>
    (fs_exists os w (project_path eng @ ''/pyproject.toml'') \<longrightarrow>
      (\<forall>e \<in> set (registry eng).
         \<not> pattern_hit (read_file os w (project_path eng @ ''/pyproject.toml'')) (snd e)))"
  then have "first_pass os w (project_path eng) (registry eng) = None"
    by (simp add: first_pass_miss)
  moreover from h have "fs_exists os w (project_path eng @ ''/pyproject.toml'') \<Longrightarrow>
    second_pass (read_file os w (project_path eng @ ''/pyproject.toml'')) (registry eng) = None"
    by (simp add: second_pass_miss)
  ultimately show "detect_backend os eng w = None"
    by (simp add: detect_backend_def get_all_backends_def file_exists_def Let_def)
next
  assume h: "fs_exists os w (path @ ''/uv.lock'') \<and>
    (\<forall>e \<in> set (registry (Engine_new path)). fst e \<noteq> ''uv'' \<longrightarrow> \<not> file_hit os w path (snd e))"
  have reg: "registry (Engine_new path) =
    [(''hatch'', hatch_config), (''pdm'', pdm_config), (''poetry'', poetry_config),
     (''rye'', rye_config)] @ (''uv'', uv_config) # []"
    by (simp add: Engine_new_def BackendRegistry_new_entries)
  from h have "file_hit os w path uv_config"
    by (simp add: file_hit_def uv_config_def)
  moreover from h reg have "\<forall>e \<in> set [(''hatch'', hatch_config), (''pdm'', pdm_config),
     (''poetry'', poetry_config), (''rye'', rye_config)]. \<not> file_hit os w path (snd e)"
    by simp
  ultimately have "first_pass os w path (registry (Engine_new path)) = Some ''uv''"
    unfolding reg by (rule first_pass_hit[rotated])
  then show "detect_backend os (Engine_new path) w = Some ''uv''"
    by (simp add: detect_backend_def get_all_backends_def Engine_new_def)
qed

text \<open>
  The three outcomes on concrete projects: uv.lock beside a manifest that mentions poetry,
  the manifest alone, and an empty directory.
\<close>

theorem detect_two_passes_witness:
  "fs_exists demo_os (demo_project [(''./uv.lock'', []), (''./pyproject.toml'', ''[tool.poetry]'')]) ''./uv.lock'' \<and>
   pattern_hit (read_file demo_os
      (demo_project [(''./uv.lock'', []), (''./pyproject.toml'', ''[tool.poetry]'')])
      ''./pyproject.toml'') poetry_config \<and>
   detect_backend demo_os (Engine_new ''.'')
      (demo_project [(''./uv.lock'', []), (''./pyproject.toml'', ''[tool.poetry]'')]) = Some ''uv'' \<and>
   detect_backend demo_os (Engine_new ''.'')
      (demo_project [(''./pyproject.toml'', ''[tool.poetry]'')]) = Some ''poetry'' \<and>
   detect_backend demo_os (Engine_new ''.'') (demo_project []) = None"
proof -
  let ?eng = "Engine_new ''.''"
  let ?w1 = "demo_project [(''./uv.lock'', []), (''./pyproject.toml'', ''[tool.poetry]'')]"
  let ?w2 = "demo_project [(''./pyproject.toml'', ''[tool.poetry]'')]"
  let ?w3 = "demo_project []"
  have reg: "registry ?eng =
    [(''hatch'', hatch_config), (''pdm'', pdm_config)] @ (''poetry'', poetry_config) #
    [(''rye'', rye_config), (''uv'', uv_config)]"
    by (simp add: Engine_new_def BackendRegistry_new_entries)
  have a: "fs_exists demo_os ?w1 ''./uv.lock''"
    by (simp add: demo_os_def demo_project_def)
  have b: "pattern_hit (read_file demo_os ?w1 ''./pyproject.toml'') poetry_config"
    by (simp add: pattern_hit_code read_file_def demo_os_def demo_project_def poetry_config_def)
  have c: "\<forall>e \<in> set (registry (Engine_new ''.'')). fst e \<noteq> ''uv'' \<longrightarrow> \<not> file_hit demo_os ?w1 ''.'' (snd e)"
    by (simp add: file_hit_code demo_eval)
  have 1: "detect_backend demo_os ?eng ?w1 = Some ''uv''"
    using detect_two_passes [of ?eng _ _ _ _ demo_os ?w1 "''.''"] a c by simp
  have d: "\<forall>e \<in> set (registry ?eng). \<not> file_hit demo_os ?w2 (project_path ?eng) (snd e)"
    by (simp add: file_hit_code demo_eval)
  have e: "fs_exists demo_os ?w2 (project_path ?eng @ ''/pyproject.toml'')"
    by (simp add: demo_eval)
  have f: "\<forall>e \<in> set [(''hatch'', hatch_config), (''pdm'', pdm_config)].
      \<not> pattern_hit (read_file demo_os ?w2 (project_path ?eng @ ''/pyproject.toml'')) (snd e)"
    by (simp add: pattern_hit_code demo_eval)
  have g: "pattern_hit (read_file demo_os ?w2 (project_path ?eng @ ''/pyproject.toml'')) poetry_config"
    by (simp add: pattern_hit_code demo_eval)
  have 2: "detect_backend demo_os ?eng ?w2 = Some ''poetry''"
    using detect_two_passes [of ?eng "[(''hatch'', hatch_config), (''pdm'', pdm_config)]"
        "''poetry''" poetry_config "[(''rye'', rye_config), (''uv'', uv_config)]" demo_os ?w2]
      reg d e f g by blast
  have h: "\<forall>e \<in> set (registry ?eng). \<not> file_hit demo_os ?w3 (project_path ?eng) (snd e)"
    by (simp add: file_hit_code demo_eval)
  have i: "\<not> fs_exists demo_os ?w3 (project_path ?eng @ ''/pyproject.toml'')"
    by (simp add: demo_eval)
  have 3: "detect_backend demo_os ?eng ?w3 = None"
    using detect_two_passes [of ?eng _ _ _ _ demo_os ?w3] h i by blast
  from a b 1 2 3 show ?thesis by blast
qed

text \<open>
  C8, as the code has it. Detection reads the world only through the existence of paths
  and the text of the manifest, and two worlds that agree on these give the same result.
  The registry's entries are in ascending order of their keys, for the built-in catalog
  hatch, pdm, poetry, rye, uv, and registering keeps the order. The smallest key wins
  within a pass: when some backend has a file signal, the smallest backend with a file
  signal is returned; when none has a file signal and some backend has a pattern signal,
  the smallest backend with a pattern signal is returned; when no backend has either
  signal, the result is absent. A project with pdm.lock and uv.lock (and no hatch.lock)
  detects as pdm.
\<close>

theorem detect_deterministic_ordered:
  "((\<forall>p. fs_exists os w p = fs_exists os w' p) \<and>
    fs_open_read os w (project_path eng @ ''/pyproject.toml'') =
      fs_open_read os w' (project_path eng @ ''/pyproject.toml'')
    \<longrightarrow> detect_backend os eng w = detect_backend os eng w') \<and>
   get_backend_names (registry (Engine_new path)) =
     [''hatch'', ''pdm'', ''poetry'', ''rye'', ''uv''] \<and>
   sorted_wrt (<) (get_backend_names (registry (Engine_new path))) \<and>
   (sorted_wrt (<) (get_backend_names backends)
    \<longrightarrow> sorted_wrt (<) (get_backend_names (register_backend k config backends))) \<and>
   (sorted_wrt (<) (get_backend_names (registry eng)) \<and> (\<exists>m. file_signal os eng w m)
    \<longrightarrow> (\<exists>nm. detect_backend os eng w = Some nm \<and> file_signal os eng w nm \<and>
          (\<forall>m. file_signal os eng w m \<longrightarrow> nm \<le> m))) \<and>
   (sorted_wrt (<) (get_backend_names (registry eng)) \<and> (\<forall>m. \<not> file_signal os eng w m) \<and>
    (\<exists>m. pattern_signal os eng w m)
    \<longrightarrow> (\<exists>nm. detect_backend os eng w = Some nm \<and> pattern_signal os eng w nm \<and>
          (\<forall>m. pattern_signal os eng w m \<longrightarrow> nm \<le> m))) \<and>
   (sorted_wrt (<) (get_backend_names (registry eng)) \<and> (\<forall>m. \<not> file_signal os eng w m) \<and>
    (\<forall>m. \<not> pattern_signal os eng w m)
    \<longrightarrow> detect_backend os eng w = None) \<and>
   (fs_exists os w (path @ ''/pdm.lock'') \<and> fs_exists os w (path @ ''/uv.lock'') \<and>
    \<not> fs_exists os w (path @ ''/hatch.lock'')
    \<longrightarrow> detect_backend os (Engine_new path) w = Some ''pdm'')"
proof (intro conjI impI)
  assume "(\<forall>p. fs_exists os w p = fs_exists os w' p) \<and>
    fs_open_read os w (project_path eng @ ''/pyproject.toml'') =
      fs_open_read os w' (project_path eng @ ''/pyproject.toml'')"
  then show "detect_backend os eng w = detect_backend os eng w'"
    by (simp add: detect_backend_cong)
next
  show "get_backend_names (registry (Engine_new path)) =
     [''hatch'', ''pdm'', ''poetry'', ''rye'', ''uv'']"
    by (rule Engine_new_names)
next
  show "sorted_wrt (<) (get_backend_names (registry (Engine_new path)))"
    by (rule Engine_new_sorted)
next
  assume "sorted_wrt (<) (get_backend_names backends)"
  then show "sorted_wrt (<) (get_backend_names (register_backend k config backends))"
    by (simp add: get_backend_names_def register_backend_def map_assign_sorted)
next
  assume h: "sorted_wrt (<) (get_backend_names (registry eng)) \<and> (\<exists>m. file_signal os eng w m)"
  then have s: "sorted_wrt (<) (get_backend_names (registry eng))" by (rule conjunct1)
  from h obtain m where "file_signal os eng w m" by blast
  with s show "\<exists>nm. detect_backend os eng w = Some nm \<and> file_signal os eng w nm \<and>
          (\<forall>m. file_signal os eng w m \<longrightarrow> nm \<le> m)"
    by (rule detect_backend_file_pass)
next
  assume h: "sorted_wrt (<) (get_backend_names (registry eng)) \<and>
    (\<forall>m. \<not> file_signal os eng w m) \<and> (\<exists>m. pattern_signal os eng w m)"
  then have s: "sorted_wrt (<) (get_backend_names (registry eng))"
    and nofile: "\<forall>m. \<not> file_signal os eng w m" by blast+
  from h obtain m where "pattern_signal os eng w m" by blast
  with s nofile show "\<exists>nm. detect_backend os eng w = Some nm \<and> pattern_signal os eng w nm \<and>
          (\<forall>m. pattern_signal os eng w m \<longrightarrow> nm \<le> m)"
    by (rule detect_backend_pattern_pass)
next
  assume h: "sorted_wrt (<) (get_backend_names (registry eng)) \<and>
    (\<forall>m. \<not> file_signal os eng w m) \<and> (\<forall>m. \<not> pattern_signal os eng w m)"
  then have s: "sorted_wrt (<) (get_backend_names (registry eng))"
    and nofile: "\<forall>m. \<not> file_signal os eng w m"
    and nopat: "\<forall>m. \<not> pattern_signal os eng w m" by blast+
  then show "detect_backend os eng w = None"
    by (rule detect_backend_no_signal)
next
  assume h: "fs_exists os w (path @ ''/pdm.lock'') \<and> fs_exists os w (path @ ''/uv.lock'') \<and>
    \<not> fs_exists os w (path @ ''/hatch.lock'')"
  then show "detect_backend os (Engine_new path) w = Some ''pdm''"
    by (simp add: detect_backend_def get_all_backends_def Engine_new_def
        BackendRegistry_new_entries file_exists_def hatch_config_def pdm_config_def)
qed

text \<open>
  C8 as stated fails across the passes: with uv.lock beside a manifest that contains the
  pattern of hatch, the signals of hatch and of uv are both present and hatch is the
  smaller key, yet detection returns uv.
\<close>

theorem detect_not_least_signal:
  "pattern_signal demo_os (Engine_new ''.'')
     (demo_project [(''./uv.lock'', []), (''./pyproject.toml'', ''[tool.hatch.version]'')]) ''hatch'' \<and>
   file_signal demo_os (Engine_new ''.'')
     (demo_project [(''./uv.lock'', []), (''./pyproject.toml'', ''[tool.hatch.version]'')]) ''uv'' \<and>
   ''hatch'' < ''uv'' \<and>
   detect_backend demo_os (Engine_new ''.'')
     (demo_project [(''./uv.lock'', []), (''./pyproject.toml'', ''[tool.hatch.version]'')]) = Some ''uv''"
  by (simp add: pattern_signal_def file_signal_def pattern_hit_code file_hit_code get_backend_def
      demo_eval)

text \<open>
  The ordering theorem on a project with pdm.lock and uv.lock (and on the same project
  with another shell), on a manifest that holds the patterns of uv and of poetry, and on
  an empty directory.
\<close>

theorem detect_deterministic_ordered_witness:
  "detect_backend demo_os (Engine_new ''.'')
     (demo_project [(''./pdm.lock'', []), (''./uv.lock'', [])]) =
   detect_backend demo_os (Engine_new ''.'')
     ((demo_project [(''./pdm.lock'', []), (''./uv.lock'', [])])\<lparr>child := (\<lambda>line. None)\<rparr>) \<and>
   sorted_wrt (<) (get_backend_names
     (register_backend ''uv'' uv_config (register_backend ''pdm'' pdm_config []))) \<and>
   detect_backend demo_os (Engine_new ''.'')
     (demo_project [(''./pdm.lock'', []), (''./uv.lock'', [])]) = Some ''pdm'' \<and>
   file_signal demo_os (Engine_new ''.'')
     (demo_project [(''./pdm.lock'', []), (''./uv.lock'', [])]) ''pdm'' \<and>
   file_signal demo_os (Engine_new ''.'')
     (demo_project [(''./pdm.lock'', []), (''./uv.lock'', [])]) ''uv'' \<and>
   ''pdm'' \<le> ''uv'' \<and>
   detect_backend demo_os (Engine_new ''.'')
     (demo_project [(''./pyproject.toml'', ''[tool.uv] [tool.poetry]'')]) = Some ''poetry'' \<and>
   pattern_signal demo_os (Engine_new ''.'')
     (demo_project [(''./pyproject.toml'', ''[tool.uv] [tool.poetry]'')]) ''poetry'' \<and>
   pattern_signal demo_os (Engine_new ''.'')
     (demo_project [(''./pyproject.toml'', ''[tool.uv] [tool.poetry]'')]) ''uv'' \<and>
   ''poetry'' \<le> ''uv'' \<and>
   detect_backend demo_os (Engine_new ''.'') (demo_project []) = None"
proof -
  let ?eng = "Engine_new ''.''"
  let ?w = "demo_project [(''./pdm.lock'', []), (''./uv.lock'', [])]"
  let ?w' = "?w\<lparr>child := (\<lambda>line. None)\<rparr>"
  let ?m = "demo_project [(''./pyproject.toml'', ''[tool.uv] [tool.poetry]'')]"
  let ?e = "demo_project []"
  note locks = detect_deterministic_ordered
    [of demo_os ?w ?w' ?eng "''.''" "register_backend ''pdm'' pdm_config []" "''uv''" uv_config]
  note manifest = detect_deterministic_ordered [of demo_os ?m ?m ?eng "''.''"]
  note empty = detect_deterministic_ordered [of demo_os ?e ?e ?eng "''.''"]
  from locks have sorted: "sorted_wrt (<) (get_backend_names (registry ?eng))" by blast
  have same: "(\<forall>p. fs_exists demo_os ?w p = fs_exists demo_os ?w' p) \<and>
    fs_open_read demo_os ?w (project_path ?eng @ ''/pyproject.toml'') =
      fs_open_read demo_os ?w' (project_path ?eng @ ''/pyproject.toml'')"
    by (simp add: demo_os_def demo_project_def)
  with locks have 1: "detect_backend demo_os ?eng ?w = detect_backend demo_os ?eng ?w'"
    by blast
  have "sorted_wrt (<) (get_backend_names (register_backend ''pdm'' pdm_config []))"
    by (simp add: get_backend_names_def register_backend_def)
  with locks have 2: "sorted_wrt (<) (get_backend_names
     (register_backend ''uv'' uv_config (register_backend ''pdm'' pdm_config [])))"
    by blast
  have "fs_exists demo_os ?w (''.'' @ ''/pdm.lock'') \<and>
      fs_exists demo_os ?w (''.'' @ ''/uv.lock'') \<and> \<not> fs_exists demo_os ?w (''.'' @ ''/hatch.lock'')"
    by (simp add: demo_os_def demo_project_def)
  with locks have 3: "detect_backend demo_os ?eng ?w = Some ''pdm''"
    by blast
  have uv: "file_signal demo_os ?eng ?w ''uv''"
    by (simp add: file_signal_def file_hit_code get_backend_def demo_eval)
  then have "\<exists>m. file_signal demo_os ?eng ?w m" by blast
  with locks sorted obtain nm where "detect_backend demo_os ?eng ?w = Some nm"
    "file_signal demo_os ?eng ?w nm" "\<forall>m. file_signal demo_os ?eng ?w m \<longrightarrow> nm \<le> m"
    by blast
  with 3 uv have 4: "file_signal demo_os ?eng ?w ''pdm''" and 5: "''pdm'' \<le> ''uv''"
    by auto
  have nofile: "\<forall>m. \<not> file_signal demo_os ?eng ?m m"
    by (simp add: file_signal_def file_hit_code Engine_new_def get_backend_new config_defs
        file_exists_def demo_os_def demo_project_def)
  have puv: "pattern_signal demo_os ?eng ?m ''uv''"
    by (simp add: pattern_signal_def pattern_hit_code get_backend_def demo_eval)
  then have "\<exists>m. pattern_signal demo_os ?eng ?m m" by blast
  with manifest sorted nofile obtain pm where "detect_backend demo_os ?eng ?m = Some pm"
    "pattern_signal demo_os ?eng ?m pm" "\<forall>m. pattern_signal demo_os ?eng ?m m \<longrightarrow> pm \<le> m"
    by blast
  moreover have 6: "detect_backend demo_os ?eng ?m = Some ''poetry''"
    by (simp add: demo_eval)
  ultimately have 7: "pattern_signal demo_os ?eng ?m ''poetry''" and 8: "''poetry'' \<le> ''uv''"
    using puv by auto
  have nofile': "\<forall>m. \<not> file_signal demo_os ?eng ?e m"
    by (simp add: file_signal_def file_hit_code Engine_new_def get_backend_new config_defs
        file_exists_def demo_os_def demo_project_def)
  have nopat: "\<forall>m. \<not> pattern_signal demo_os ?eng ?e m"
    by (simp add: pattern_signal_def Engine_new_def demo_os_def demo_project_def)
  from empty sorted nofile' nopat have 9: "detect_backend demo_os ?eng ?e = None"
    by blast
  from 1 2 3 4 uv 5 6 7 puv 8 9 show ?thesis by blast
qed

section \<open>Rendering the command\<close>

text \<open>
  C6. Rendering appends the arguments to the template and substitutes nothing inside
  it. Adding requests with uv runs the list uv, add, requests; as a dev dependency the
  list uv, add, --group, dev, requests; running pytest -v with pdm runs the list pdm, run,
  pytest, -v.
\<close>

theorem rendering_appends:
  "substitute_placeholders cmd_template args = cmd_template @ args \<and>
   add_package os (Engine_new path) st ''requests'' False ''uv'' =
     execute_command os st [''uv'', ''add'', ''requests''] \<and>
   add_package os (Engine_new path) st ''requests'' True ''uv'' =
     execute_command os st [''uv'', ''add'', ''--group'', ''dev'', ''requests''] \<and>
   run_command os (Engine_new path) st [''pytest'', ''-v''] ''pdm'' =
     execute_command os st [''pdm'', ''run'', ''pytest'', ''-v'']"
  by (simp add: substitute_placeholders_def add_package_def run_command_def resolve_backend_def
      Engine_new_def get_backend_new uv_config_def pdm_config_def)

text \<open>
  C1, as the code has it. The loop of \<^verbatim>\<open>execute_command\<close> writes one command line:
  the tokens in order, separated by single spaces, a token with a space in it between
  double quotes and every other token as it is. A delegating operation with a resolved
  backend and a non-empty final command passes exactly this line to \<^verbatim>\<open>popen\<close>, once,
  and its result is read off what \<^verbatim>\<open>popen\<close> returns for the line. With the built-in
  catalog the final command of a delegating operation is never empty.
\<close>

theorem command_line_to_shell:
  "cmd_str command = command_line command \<and>
   (op \<noteq> Clean \<and> resolve_backend os eng (world st) backend \<noteq> [] \<and>
    get_backend (registry eng) (resolve_backend os eng (world st) backend) = Some config \<and>
    final_command config op \<noteq> []
    \<longrightarrow>
    spawned (snd (perform os eng st op backend)) =
      spawned st @ [command_line (final_command config op)] \<and>
    fst (perform os eng st op backend) =
      (case fst (sh_popen os (world st) (command_line (final_command config op))) of
         None \<Rightarrow>
           \<lparr>success = False, output = [], error = ''Failed to execute command'', exit_code = 1\<rparr>
       | Some (buffers, status) \<Rightarrow>
           \<lparr>success = (status = 0), output = concat buffers,
            error = (if status = 0 then [] else concat buffers), exit_code = status\<rparr>)) \<and>
   (op \<noteq> Clean \<and> get_backend (registry (Engine_new path)) nm = Some config
    \<longrightarrow> final_command config op \<noteq> [])"
proof (intro conjI impI)
  show "cmd_str command = command_line command" by (rule cmd_str_command_line)
next
  assume h: "op \<noteq> Clean \<and> resolve_backend os eng (world st) backend \<noteq> [] \<and>
    get_backend (registry eng) (resolve_backend os eng (world st) backend) = Some config \<and>
    final_command config op \<noteq> []"
  then have p: "perform os eng st op backend = execute_command os st (final_command config op)"
    by (simp add: perform_delegates)
  from h show "spawned (snd (perform os eng st op backend)) =
      spawned st @ [command_line (final_command config op)]"
    unfolding p by (simp add: execute_command_spawned)
  from h show "fst (perform os eng st op backend) =
      (case fst (sh_popen os (world st) (command_line (final_command config op))) of
         None \<Rightarrow>
           \<lparr>success = False, output = [], error = ''Failed to execute command'', exit_code = 1\<rparr>
       | Some (buffers, status) \<Rightarrow>
           \<lparr>success = (status = 0), output = concat buffers,
            error = (if status = 0 then [] else concat buffers), exit_code = status\<rparr>)"
    unfolding p by (simp add: execute_command_result)
next
  assume "op \<noteq> Clean \<and> get_backend (registry (Engine_new path)) nm = Some config"
  then show "final_command config op \<noteq> []"
    using default_templates_nonempty by blast
qed

text \<open>
  C1 as stated fails: the execution service is handed one string, and different token
  lists give the same string. Running the two tokens \<^verbatim>\<open>"x\<close> and \<^verbatim>\<open>y"\<close> and running
  the one token \<^verbatim>\<open>x y\<close> are the same call, so the tokens do not reach the child as
  they were given. A package name with a semicolon is written into the line unquoted.
\<close>

theorem token_lists_collide:
  "[[CHR 0x22, CHR ''x''], [CHR ''y'', CHR 0x22]] \<noteq> [''x y''] \<and>
   perform demo_os (Engine_new ''.'') (demo_state (demo_project []))
     (Run [[CHR 0x22, CHR ''x''], [CHR ''y'', CHR 0x22]]) ''uv'' =
   perform demo_os (Engine_new ''.'') (demo_state (demo_project [])) (Run [''x y'']) ''uv'' \<and>
   spawned (snd (perform demo_os (Engine_new ''.'') (demo_state (demo_project []))
     (Run [''x y'']) ''uv'')) = [''uv run '' @ [CHR 0x22] @ ''x y'' @ [CHR 0x22]] \<and>
   spawned (snd (perform demo_os (Engine_new ''.'') (demo_state (demo_project []))
     (Add ''a;b'' False) ''uv'')) = [''uv add a;b'']"
  by (simp add: run_command_def add_package_def substitute_placeholders_def resolve_backend_def
      Engine_new_def get_backend_new config_defs execute_command_def cmd_str_def
      OperationResult_new_def demo_state_def demo_project_def demo_os_def silent_failure_def
      Let_def)

text \<open>The command line for a run whose last argument has a space in it.\<close>

theorem command_line_to_shell_witness:
  "cmd_str [''pdm'', ''run'', ''pytest'', ''-k'', ''a b''] =
     ''pdm run pytest -k '' @ [CHR 0x22] @ ''a b'' @ [CHR 0x22] \<and>
   spawned (snd (perform demo_os (Engine_new ''.'') (demo_state (demo_project []))
     (Run [''pytest'', ''-k'', ''a b'']) ''pdm'')) =
     [''pdm run pytest -k '' @ [CHR 0x22] @ ''a b'' @ [CHR 0x22]] \<and>
   fst (perform demo_os (Engine_new ''.'') (demo_state (demo_project []))
     (Run [''pytest'', ''-k'', ''a b'']) ''pdm'') =
     \<lparr>success = False, output = [], error = [], exit_code = 256\<rparr>"
proof -
  let ?eng = "Engine_new ''.''"
  let ?st = "demo_state (demo_project [])"
  let ?op = "Run [''pytest'', ''-k'', ''a b'']"
  note inst = command_line_to_shell
    [of "[''pdm'', ''run'', ''pytest'', ''-k'', ''a b'']" ?op demo_os ?eng ?st "''pdm''"
        pdm_config "''.''" "''pdm''"]
  have line: "command_line [''pdm'', ''run'', ''pytest'', ''-k'', ''a b''] =
     ''pdm run pytest -k '' @ [CHR 0x22] @ ''a b'' @ [CHR 0x22]"
    by (simp add: command_line_def quoted_def)
  have reg: "get_backend (registry ?eng) ''pdm'' = Some pdm_config"
    by (simp add: Engine_new_def get_backend_new)
  with inst have ne: "final_command pdm_config ?op \<noteq> []" by blast
  have fc: "final_command pdm_config ?op = [''pdm'', ''run'', ''pytest'', ''-k'', ''a b'']"
    by (simp add: pdm_config_def)
  have h: "?op \<noteq> Clean \<and> resolve_backend demo_os ?eng (world ?st) ''pdm'' \<noteq> [] \<and>
    get_backend (registry ?eng) (resolve_backend demo_os ?eng (world ?st) ''pdm'') =
      Some pdm_config \<and> final_command pdm_config ?op \<noteq> []"
    using reg ne by (simp add: resolve_backend_def)
  have popen: "fst (sh_popen demo_os (world ?st)
      (''pdm run pytest -k '' @ [CHR 0x22] @ ''a b'' @ [CHR 0x22])) = Some ([], 256)"
    by (simp add: demo_os_def demo_state_def demo_project_def silent_failure_def)
  from inst have 1: "cmd_str [''pdm'', ''run'', ''pytest'', ''-k'', ''a b''] =
      command_line [''pdm'', ''run'', ''pytest'', ''-k'', ''a b'']" by blast
  from inst h have 2: "spawned (snd (perform demo_os ?eng ?st ?op ''pdm'')) =
      spawned ?st @ [command_line (final_command pdm_config ?op)]" by blast
  from inst h have 3: "fst (perform demo_os ?eng ?st ?op ''pdm'') =
      (case fst (sh_popen demo_os (world ?st) (command_line (final_command pdm_config ?op))) of
         None \<Rightarrow>
           \<lparr>success = False, output = [], error = ''Failed to execute command'', exit_code = 1\<rparr>
       | Some (buffers, status) \<Rightarrow>
           \<lparr>success = (status = 0), output = concat buffers,
            error = (if status = 0 then [] else concat buffers), exit_code = status\<rparr>)" by blast
  have sp: "spawned ?st = []" by (simp add: demo_state_def)
  from 1 2 3 show ?thesis unfolding fc line popen sp by simp
qed

section \<open>Results\<close>

text \<open>
  C2, as the code has it. In the result of every operation the success flag is set
  exactly when the exit code is 0. In a failed result the error text is non-empty, or
  the operation delegated to a child that ran and the error text is a copy of the
  captured output (empty when the child printed nothing), or the operation is the
  cleanup, whose error text is always empty and whose output then holds the log.
\<close>

theorem result_invariant:
  "(success (fst (perform os eng st op backend)) \<longleftrightarrow>
      exit_code (fst (perform os eng st op backend)) = 0) \<and>
   (\<not> success (fst (perform os eng st op backend))
    \<longrightarrow> error (fst (perform os eng st op backend)) \<noteq> [] \<or>
        (op \<noteq> Clean \<and>
         error (fst (perform os eng st op backend)) = output (fst (perform os eng st op backend)) \<and>
         spawned (snd (perform os eng st op backend)) \<noteq> spawned st) \<or>
        (op = Clean \<and> output (fst (perform os eng st op backend)) \<noteq> []))"
proof (cases "resolve_backend os eng (world st) backend = []")
  case True
  then show ?thesis by (simp add: perform_no_backend OperationResult_new_def)
next
  case resolved: False
  show ?thesis
  proof (cases "get_backend (registry eng) (resolve_backend os eng (world st) backend)")
    case None
    with resolved show ?thesis by (simp add: perform_unknown_backend OperationResult_new_def)
  next
    case (Some config)
    show ?thesis
    proof (cases "op = Clean")
      case False
      with resolved Some have
        "perform os eng st op backend = execute_command os st (final_command config op)"
        by (simp add: perform_delegates)
      with False execute_command_success [of os st "final_command config op"]
        execute_command_failure [of os st "final_command config op"]
      show ?thesis by auto
    next
      case True
      obtain out ok w' where
        loop: "clean_loop os (project_path eng) (clean_files config) ([], True, world st) =
          (out, ok, w')"
        by (cases "clean_loop os (project_path eng) (clean_files config) ([], True, world st)")
      from clean_loop_events [OF loop] have
        out: "out = concat (map log_line
                (cleanup_events os (project_path eng) (clean_files config) (world st)))" and
        ok: "ok = (\<forall>e \<in> set (cleanup_events os (project_path eng) (clean_files config) (world st)).
                \<not> is_failure e)"
        by simp_all
      have "\<not> ok \<Longrightarrow> out \<noteq> []"
      proof -
        assume "\<not> ok"
        with ok obtain e where
          "e \<in> set (cleanup_events os (project_path eng) (clean_files config) (world st))"
          "is_failure e" by blast
        with out show "out \<noteq> []" using failure_log_line by auto
      qed
      then have nonempty: "ok \<or> out \<noteq> []" by blast
      from perform_clean [OF resolved Some] loop True have
        pc: "perform os eng st op backend =
          (OperationResult_new ok out [] (if ok then 0 else 1), st\<lparr>world := w'\<rparr>)"
        by simp
      show ?thesis unfolding pc using True nonempty
        by (auto simp: OperationResult_new_def)
    qed
  qed
qed

text \<open>
  C2 as stated fails: a child that prints nothing and exits with a non-zero status gives
  a failed result with an empty error text, and a failed cleanup has an empty error text.
\<close>

theorem failure_without_diagnostic:
  "fst (perform demo_os (Engine_new ''.'') (demo_state (demo_project [])) Version ''uv'') =
     \<lparr>success = False, output = [], error = [], exit_code = 256\<rparr> \<and>
   success (fst (perform demo_os (Engine_new ''.'') (demo_state denied_project) Clean ''poetry'')) = False \<and>
   error (fst (perform demo_os (Engine_new ''.'') (demo_state denied_project) Clean ''poetry'')) = []"
  by (simp add: get_version_def clean_project_def resolve_backend_def Engine_new_def
      get_backend_new config_defs execute_command_def cmd_str_def OperationResult_new_def
      demo_state_def demo_project_def denied_project_def demo_os_def silent_failure_def Let_def)

text \<open>The invariant on the version query whose child fails silently.\<close>

theorem result_invariant_witness:
  "\<not> success (fst (perform demo_os (Engine_new ''.'') (demo_state (demo_project [])) Version ''uv'')) \<and>
   exit_code (fst (perform demo_os (Engine_new ''.'') (demo_state (demo_project [])) Version ''uv'')) \<noteq> 0 \<and>
   error (fst (perform demo_os (Engine_new ''.'') (demo_state (demo_project [])) Version ''uv'')) =
     output (fst (perform demo_os (Engine_new ''.'') (demo_state (demo_project [])) Version ''uv'')) \<and>
   spawned (snd (perform demo_os (Engine_new ''.'') (demo_state (demo_project [])) Version ''uv'')) \<noteq>
     spawned (demo_state (demo_project []))"
proof -
  let ?r = "perform demo_os (Engine_new ''.'') (demo_state (demo_project [])) Version ''uv''"
  have f: "\<not> success (fst ?r)" and e: "error (fst ?r) = []"
    by (simp_all add: get_version_def resolve_backend_def Engine_new_def
      get_backend_new config_defs execute_command_def cmd_str_def OperationResult_new_def
      demo_state_def demo_project_def demo_os_def silent_failure_def)
  from f e result_invariant [of demo_os "Engine_new ''.''" "demo_state (demo_project [])" Version "''uv''"]
  show ?thesis by auto
qed

text \<open>
  C4, as the code has it. With no hint and no backend detected, every operation returns
  the failure result with exit code 1 and the text \<^verbatim>\<open>No backend found or specified\<close>;
  with a hint that names no registered backend, the failure result whose text is
  \<^verbatim>\<open>Backend not found: \<close> followed by the hint. In both cases the state is returned as
  it was: nothing is added to the log of spawned command lines, and the world is not
  touched.
\<close>

theorem resolution_failures:
  "(backend = [] \<and> detect_backend os eng (world st) = None
    \<longrightarrow> perform os eng st op backend =
          (\<lparr>success = False, output = [], error = ''No backend found or specified'',
            exit_code = 1\<rparr>, st)) \<and>
   (backend \<noteq> [] \<and> get_backend (registry eng) backend = None
    \<longrightarrow> perform os eng st op backend =
          (\<lparr>success = False, output = [], error = ''Backend not found: '' @ backend,
            exit_code = 1\<rparr>, st))"
proof (intro conjI impI)
  assume "backend = [] \<and> detect_backend os eng (world st) = None"
  then have "resolve_backend os eng (world st) backend = []"
    by (simp add: resolve_backend_def)
  then show "perform os eng st op backend =
          (\<lparr>success = False, output = [], error = ''No backend found or specified'',
            exit_code = 1\<rparr>, st)"
    by (simp add: perform_no_backend OperationResult_new_def)
next
  assume h: "backend \<noteq> [] \<and> get_backend (registry eng) backend = None"
  then have r: "resolve_backend os eng (world st) backend = backend"
    by (simp add: resolve_backend_def)
  with h show "perform os eng st op backend =
          (\<lparr>success = False, output = [], error = ''Backend not found: '' @ backend,
            exit_code = 1\<rparr>, st)"
    using perform_unknown_backend [of os eng st backend op] by (simp add: OperationResult_new_def)
qed

text \<open>
  C4 as stated fails on the spelling of the first diagnostic: the text returned starts
  with a capital letter.
\<close>

theorem no_backend_message_spelling:
  "detect_backend demo_os (Engine_new ''.'') (world (demo_state (demo_project []))) = None \<and>
   error (fst (perform demo_os (Engine_new ''.'') (demo_state (demo_project [])) Version [])) =
     ''No backend found or specified'' \<and>
   error (fst (perform demo_os (Engine_new ''.'') (demo_state (demo_project [])) Version [])) \<noteq>
     ''no backend found or specified''"
proof -
  have "detect_backend demo_os (Engine_new ''.'') (world (demo_state (demo_project []))) = None"
    by (simp add: demo_state_def demo_eval)
  then show ?thesis
    by (simp add: get_version_def resolve_backend_def OperationResult_new_def)
qed

text \<open>
  Both failures in an empty directory: a run without a hint, and an add with the hint pip.
\<close>

theorem resolution_failures_witness:
  "perform demo_os (Engine_new ''.'') (demo_state (demo_project [])) (Run [''pytest'']) [] =
     (\<lparr>success = False, output = [], error = ''No backend found or specified'', exit_code = 1\<rparr>,
      demo_state (demo_project [])) \<and>
   perform demo_os (Engine_new ''.'') (demo_state (demo_project [])) (Add ''requests'' False) ''pip'' =
     (\<lparr>success = False, output = [], error = ''Backend not found: pip'', exit_code = 1\<rparr>,
      demo_state (demo_project [])) \<and>
   spawned (demo_state (demo_project [])) = []"
proof -
  let ?eng = "Engine_new ''.''"
  let ?st = "demo_state (demo_project [])"
  have a: "([]::string) = [] \<and> detect_backend demo_os ?eng (world ?st) = None"
    by (simp add: demo_state_def demo_eval)
  have b: "''pip'' \<noteq> [] \<and> get_backend (registry ?eng) ''pip'' = None"
    by (simp add: Engine_new_def get_backend_new)
  from a resolution_failures [of "[]" demo_os ?eng ?st "Run [''pytest'']"]
  have 1: "perform demo_os ?eng ?st (Run [''pytest'']) [] =
     (\<lparr>success = False, output = [], error = ''No backend found or specified'', exit_code = 1\<rparr>, ?st)"
    by blast
  from b resolution_failures [of "''pip''" demo_os ?eng ?st "Add ''requests'' False"]
  have 2: "perform demo_os ?eng ?st (Add ''requests'' False) ''pip'' =
     (\<lparr>success = False, output = [], error = ''Backend not found: '' @ ''pip'', exit_code = 1\<rparr>, ?st)"
    by blast
  have 3: "spawned ?st = []" by (simp add: demo_state_def)
  from 1 2 3 show ?thesis by simp
qed


section \<open>Cleanup\<close>

text \<open>
  C5, as the code has it. With a resolved backend, cleanup looks at every cleanup path of
  the descriptor in declared order, also after a failure. A path that exists is removed;
  when the removal raises an error, or when asking whether the path exists does, the
  failure line is written and the operation is marked failed. The output is the
  concatenation of the lines of the events, success holds exactly when no event raised
  an error, the exit code is 0 on success and 1 otherwise, and the error text is empty.
  The state returned is the one given, in the world where the recursive deletion has been
  called on exactly the paths on which a deletion was attempted: no subprocess is spawned.
\<close>

theorem clean_partial_failure:
  "resolve_backend os eng (world st) backend \<noteq> [] \<and>
   get_backend (registry eng) (resolve_backend os eng (world st) backend) = Some config
   \<longrightarrow>
   map event_path (cleanup_events os (project_path eng) (clean_files config) (world st)) =
     clean_files config \<and>
   output (fst (clean_project os eng st backend)) =
     concat (map log_line
       (cleanup_events os (project_path eng) (clean_files config) (world st))) \<and>
   success (fst (clean_project os eng st backend)) =
     (\<forall>e \<in> set (cleanup_events os (project_path eng) (clean_files config) (world st)).
        \<not> is_failure e) \<and>
   exit_code (fst (clean_project os eng st backend)) =
     (if success (fst (clean_project os eng st backend)) then 0 else 1) \<and>
   error (fst (clean_project os eng st backend)) = [] \<and>
   snd (clean_project os eng st backend) =
     st\<lparr>world := after_events os (project_path eng)
       (cleanup_events os (project_path eng) (clean_files config) (world st)) (world st)\<rparr>"
proof (intro impI)
  assume h: "resolve_backend os eng (world st) backend \<noteq> [] \<and>
    get_backend (registry eng) (resolve_backend os eng (world st) backend) = Some config"
  let ?evs = "cleanup_events os (project_path eng) (clean_files config) (world st)"
  obtain out ok w' where
    loop: "clean_loop os (project_path eng) (clean_files config) ([], True, world st) =
      (out, ok, w')"
    by (cases "clean_loop os (project_path eng) (clean_files config) ([], True, world st)")
  from clean_loop_events [OF loop] have
    out: "out = concat (map log_line ?evs)" and
    ok: "ok = (\<forall>e \<in> set ?evs. \<not> is_failure e)" and
    w': "w' = after_events os (project_path eng) ?evs (world st)"
    by simp_all
  from h loop have
    r: "clean_project os eng st backend =
      (OperationResult_new ok out [] (if ok then 0 else 1), st\<lparr>world := w'\<rparr>)"
    by (simp add: clean_project_def)
  show "map event_path ?evs = clean_files config \<and>
   output (fst (clean_project os eng st backend)) = concat (map log_line ?evs) \<and>
   success (fst (clean_project os eng st backend)) = (\<forall>e \<in> set ?evs. \<not> is_failure e) \<and>
   exit_code (fst (clean_project os eng st backend)) =
     (if success (fst (clean_project os eng st backend)) then 0 else 1) \<and>
   error (fst (clean_project os eng st backend)) = [] \<and>
   snd (clean_project os eng st backend) =
     st\<lparr>world := after_events os (project_path eng) ?evs (world st)\<rparr>"
    unfolding r using out ok w'
    by (simp add: OperationResult_new_def cleanup_events_paths)
qed

text \<open>
  C5 as stated fails where the existence check raises: the only deletion attempted, that
  of .venv, succeeds and the lock file is left on the disk, yet the result is a failure
  with exit code 1.
\<close>

theorem check_failure_fails_cleanup:
  "cleanup_events demo_os ''.'' [''poetry.lock'', ''.venv''] unstatable_project =
     [Unchecked ''poetry.lock'' ''Permission denied'', Removed ''.venv''] \<and>
   filter is_attempt (cleanup_events demo_os ''.'' [''poetry.lock'', ''.venv''] unstatable_project) =
     [Removed ''.venv''] \<and>
   filter deletion_failed
     (cleanup_events demo_os ''.'' [''poetry.lock'', ''.venv''] unstatable_project) = [] \<and>
   clean_files poetry_config = [''poetry.lock'', ''.venv''] \<and>
   fst (clean_project demo_os (Engine_new ''.'') (demo_state unstatable_project) ''poetry'') =
     \<lparr>success = False,
      output = ''Failed to remove poetry.lock: Permission denied'' @ [CHR 0x0A] @
               ''Removed: .venv'' @ [CHR 0x0A],
      error = [], exit_code = 1\<rparr> \<and>
   disk (world (snd (clean_project demo_os (Engine_new ''.'') (demo_state unstatable_project)
     ''poetry''))) = [(''./poetry.lock'', [])]"
  by (simp add: clean_project_def resolve_backend_def Engine_new_def get_backend_new
      poetry_config_def OperationResult_new_def demo_state_def unstatable_project_def
      demo_os_def Let_def)

text \<open>
  The specification's example: of two cleanup paths the first cannot be removed and the
  second can. The second is gone afterwards and the first is still there.
\<close>

theorem clean_partial_failure_witness:
  "cleanup_events demo_os ''.'' [''poetry.lock'', ''.venv''] denied_project =
     [Failed ''poetry.lock'' ''Permission denied'', Removed ''.venv''] \<and>
   output (fst (clean_project demo_os (Engine_new ''.'') (demo_state denied_project) ''poetry'')) =
     ''Failed to remove poetry.lock: Permission denied'' @ [CHR 0x0A] @
     ''Removed: .venv'' @ [CHR 0x0A] \<and>
   success (fst (clean_project demo_os (Engine_new ''.'') (demo_state denied_project) ''poetry'')) = False \<and>
   exit_code (fst (clean_project demo_os (Engine_new ''.'') (demo_state denied_project) ''poetry'')) = 1 \<and>
   disk (world (snd (clean_project demo_os (Engine_new ''.'') (demo_state denied_project)
     ''poetry''))) = [(''./poetry.lock'', [])] \<and>
   spawned (snd (clean_project demo_os (Engine_new ''.'') (demo_state denied_project)
     ''poetry'')) = []"
proof -
  let ?eng = "Engine_new ''.''"
  let ?st = "demo_state denied_project"
  have h: "resolve_backend demo_os ?eng (world ?st) ''poetry'' \<noteq> [] \<and>
    get_backend (registry ?eng) (resolve_backend demo_os ?eng (world ?st) ''poetry'') =
      Some poetry_config"
    by (simp add: resolve_backend_def Engine_new_def get_backend_new)
  have ev: "cleanup_events demo_os ''.'' [''poetry.lock'', ''.venv''] denied_project =
     [Failed ''poetry.lock'' ''Permission denied'', Removed ''.venv'']"
    by (simp add: demo_os_def denied_project_def)
  have cf: "clean_files poetry_config = [''poetry.lock'', ''.venv'']"
    and pp: "project_path ?eng = ''.''" and w: "world ?st = denied_project"
    by (simp_all add: poetry_config_def Engine_new_def demo_state_def)
  have after: "disk (after_events demo_os ''.''
      [Failed ''poetry.lock'' ''Permission denied'', Removed ''.venv''] denied_project) =
    [(''./poetry.lock'', [])]"
    by (simp add: demo_os_def denied_project_def)
  have sp: "spawned ?st = []" by (simp add: demo_state_def)
  from h clean_partial_failure [of demo_os ?eng ?st "''poetry''" poetry_config]
  show ?thesis unfolding cf pp w ev using after sp by simp
qed

end
